theory Spec2Isabelle
  imports Main "HOL-Library.Sublist" "HOL-Library.AList"
begin

section \<open>The ETR workspace: a model of \<^verbatim>\<open>etos_test_runner/lib/workspace.py\<close>\<close>

text \<open>
  The module manipulates process-wide state (the current working directory, the
  environment, the file system) and an object (\<^verbatim>\<open>Workspace\<close>), and it calls code
  it does not own: the log area collaborator, the \<^verbatim>\<open>on_create\<close> callback and the
  body of each \<^verbatim>\<open>with\<close> statement. The model threads all of it explicitly:
  every method is a function from a state to a result and a new state, where the
  result is either a value or the exception that was raised. The state a raising
  call leaves behind is kept, as Python keeps it.
\<close>

subsection \<open>Paths\<close>

text \<open>
  An absolute path is the list of its components below the root; a relative path
  is the list of components below the directory it is resolved against.
\<close>

type_synonym path = "string list"

datatype error =
    FileNotFoundError string
  | FileExistsError
  | NotADirectoryError
  | IsADirectoryError
  | ValueError
  | KeyError string
  | AttributeError
  | TypeError
  | UnicodeDecodeError
  | Raised string

text \<open>\<^verbatim>\<open>PurePath.relative_to\<close>: raises \<^verbatim>\<open>ValueError\<close> unless the other path is a prefix.\<close>

definition relative_to :: "path \<Rightarrow> path \<Rightarrow> error + path" where
  "relative_to p other =
     (if prefix other p then Inr (drop (length other) p) else Inl ValueError)"

text \<open>\<^verbatim>\<open>str(path)\<close> for an absolute path.\<close>

definition str_path :: "path \<Rightarrow> string" where
  "str_path p = (if p = [] then ''/'' else concat (map (\<lambda>c. ''/'' @ c) p))"

text \<open>\<^verbatim>\<open>path.name\<close>: the last component, empty for the root.\<close>

definition name_of :: "path \<Rightarrow> string" where
  "name_of p = (if p = [] then [] else last p)"

subsection \<open>The process and its file system\<close>

text \<open>
  Files hold bytes. \<^verbatim>\<open>tmp_names\<close> is the stream of names the random generator of
  \<^verbatim>\<open>tempfile\<close> will propose, and \<^verbatim>\<open>tar_codec\<close> is the platform's encoder of a
  gzip-compressed tar archive, from the list of members (a member is a path and,
  for a file, its contents) to the bytes written.

  A text is represented by its UTF-8 encoding. \<^verbatim>\<open>decode\<close> is the codec of the
  locale, which \<^verbatim>\<open>Path.read_text()\<close> uses when no encoding is given: from the bytes
  of a file to the text they stand for, or nothing when the bytes cannot be
  decoded. \<^verbatim>\<open>linesep\<close> is \<^verbatim>\<open>os.linesep\<close>, the line ending a file opened in text
  mode writes for each newline.
\<close>

record os_state =
  cwd :: path
  environ :: "string \<rightharpoonup> string"
  dirs :: "path list"
  files :: "(path \<times> string) list"
  tmp_names :: "string list"
  tar_codec :: "(path \<times> string option) list \<Rightarrow> string"
  decode :: "string \<Rightarrow> string option"
  linesep :: string

text \<open>
  Code the module calls but does not own (the callback, the body of a scope, the
  caller's code between two calls) acts on the process and may raise.
\<close>

type_synonym proc = "os_state \<Rightarrow> error option \<times> os_state"

subsection \<open>The log area collaborator and the trace of calls\<close>

type_synonym descriptor = "string \<times> path"

text \<open>
  The trace records each call that leaves the module: the uploads with their
  arguments, the invocation of \<^verbatim>\<open>on_create\<close> and the directory handed to the body
  of a test-directory scope, both with the identifier of the call.
\<close>

datatype event =
    UploadLogs "descriptor list"
  | UploadArtifacts "descriptor list"
  | OnCreate string
  | Yielded string path

text \<open>
  The collaborator is a parameter. \<^verbatim>\<open>collect\<close> reads the file system and may
  raise; an upload sees the calls made so far and its argument, and may raise.
\<close>

record log_area =
  collect :: "os_state \<Rightarrow> path \<Rightarrow> error + descriptor list"
  upload_logs :: "event list \<Rightarrow> descriptor list \<Rightarrow> error option"
  upload_artifacts :: "event list \<Rightarrow> descriptor list \<Rightarrow> error option"

subsection \<open>The Workspace object and the whole state\<close>

record Workspace =
  log_area :: log_area
  top_dir :: path
  identifiers :: "string \<rightharpoonup> path"
  global_logs :: path
  global_artifacts :: path
  workspace :: "path option"
  compressed_workspace :: "path option"

record state =
  self :: Workspace
  os :: os_state
  trace :: "event list"

type_synonym 'a exec = "state \<Rightarrow> (error + 'a) \<times> state"

subsection \<open>Sequencing, exceptions and \<^verbatim>\<open>try/finally\<close>\<close>

text \<open>Statements in sequence: an exception skips everything after it.\<close>

definition bindE :: "'a exec \<Rightarrow> ('a \<Rightarrow> 'b exec) \<Rightarrow> 'b exec" where
  "bindE m f s = (case m s of (Inl e, s') \<Rightarrow> (Inl e, s') | (Inr x, s') \<Rightarrow> f x s')"

definition thenE :: "'a exec \<Rightarrow> 'b exec \<Rightarrow> 'b exec" where
  "thenE m k = bindE m (\<lambda>_. k)"

text \<open>
  \<^verbatim>\<open>try: m finally: fin\<close>. The handler always runs; when it raises, its exception
  replaces the outcome of the block.
\<close>

definition finallyE :: "'a exec \<Rightarrow> unit exec \<Rightarrow> 'a exec" where
  "finallyE m fin s =
     (case m s of (r, s') \<Rightarrow>
        (case fin s' of (Inl e, s'') \<Rightarrow> (Inl e, s'') | (Inr _, s'') \<Rightarrow> (r, s'')))"

text \<open>
  \<^verbatim>\<open>self.logger.info(fmt, arg)\<close>: logging has no effect on the state, but the
  argument is evaluated first and that may raise.
\<close>

definition logger_info :: "error + 'a \<Rightarrow> unit exec" where
  "logger_info arg s = (case arg of Inl e \<Rightarrow> (Inl e, s) | Inr _ \<Rightarrow> (Inr (), s))"

text \<open>Running foreign code on the process.\<close>

definition run_proc :: "proc \<Rightarrow> unit exec" where
  "run_proc f s =
     (case f (os s) of
        (None, o') \<Rightarrow> (Inr (), s\<lparr>os := o'\<rparr>)
      | (Some e, o') \<Rightarrow> (Inl e, s\<lparr>os := o'\<rparr>))"

subsection \<open>Operating-system primitives\<close>

definition is_dir :: "path \<Rightarrow> os_state \<Rightarrow> bool" where
  "is_dir p o1 = (p \<in> set (dirs o1))"

definition is_file :: "path \<Rightarrow> os_state \<Rightarrow> bool" where
  "is_file p o1 = (map_of (files o1) p \<noteq> None)"

definition path_exists :: "path \<Rightarrow> os_state \<Rightarrow> bool" where
  "path_exists p o1 = (is_dir p o1 \<or> is_file p o1)"

text \<open>\<^verbatim>\<open>os.chdir\<close>.\<close>

definition chdir :: "path \<Rightarrow> unit exec" where
  "chdir p s =
     (if is_dir p (os s) then (Inr (), s\<lparr>os := (os s)\<lparr>cwd := p\<rparr>\<rparr>)
      else if is_file p (os s) then (Inl NotADirectoryError, s)
      else (Inl (FileNotFoundError (str_path p)), s))"

text \<open>
  \<^verbatim>\<open>Path.mkdir(exist_ok=True)\<close>, without \<^verbatim>\<open>parents\<close>: an existing directory is
  accepted, an existing file is not, and the parent has to be a directory.
\<close>

definition mkdir_exist_ok :: "path \<Rightarrow> unit exec" where
  "mkdir_exist_ok p s =
     (if is_dir p (os s) then (Inr (), s)
      else if is_file p (os s) then (Inl FileExistsError, s)
      else if is_dir (butlast p) (os s)
        then (Inr (), s\<lparr>os := (os s)\<lparr>dirs := dirs (os s) @ [p]\<rparr>\<rparr>)
      else if is_file (butlast p) (os s) then (Inl NotADirectoryError, s)
      else (Inl (FileNotFoundError (str_path p)), s))"

text \<open>\<^verbatim>\<open>environ[k] = v\<close> and \<^verbatim>\<open>del environ[k]\<close>; the latter raises on a missing key.\<close>

definition setenv :: "string \<Rightarrow> string \<Rightarrow> unit exec" where
  "setenv k v s = (Inr (), s\<lparr>os := (os s)\<lparr>environ := (environ (os s))(k \<mapsto> v)\<rparr>\<rparr>)"

definition delenv :: "string \<Rightarrow> unit exec" where
  "delenv k s =
     (case environ (os s) k of
        None \<Rightarrow> (Inl (KeyError k), s)
      | Some _ \<Rightarrow> (Inr (), s\<lparr>os := (os s)\<lparr>environ := (environ (os s))(k := None)\<rparr>\<rparr>))"

text \<open>
  \<^verbatim>\<open>tempfile.mkdtemp(dir=d)\<close>: the proposed names are tried in turn until one
  does not exist in \<^verbatim>\<open>d\<close>; the directory is created and its path returned. When
  the names run out the call raises \<^verbatim>\<open>FileExistsError\<close>.
\<close>

fun mkdtemp_try :: "path \<Rightarrow> string list \<Rightarrow> os_state \<Rightarrow> (error + path) \<times> os_state" where
  "mkdtemp_try d [] o1 = (Inl FileExistsError, o1\<lparr>tmp_names := []\<rparr>)"
| "mkdtemp_try d (n # ns) o1 =
     (if \<not> is_dir d o1 then (Inl (FileNotFoundError (str_path (d @ [n]))), o1\<lparr>tmp_names := ns\<rparr>)
      else if path_exists (d @ [n]) o1 then mkdtemp_try d ns o1
      else (Inr (d @ [n]), o1\<lparr>dirs := dirs o1 @ [d @ [n]], tmp_names := ns\<rparr>))"

definition mkdtemp :: "path \<Rightarrow> path exec" where
  "mkdtemp d s =
     (case mkdtemp_try d (tmp_names (os s)) (os s) of (r, o') \<Rightarrow> (r, s\<lparr>os := o'\<rparr>))"

text \<open>\<^verbatim>\<open>Path.touch()\<close>: creates an empty file unless the path exists.\<close>

definition touch :: "path \<Rightarrow> unit exec" where
  "touch p s =
     (if path_exists p (os s) then (Inr (), s)
      else if is_dir (butlast p) (os s)
        then (Inr (), s\<lparr>os := (os s)\<lparr>files := AList.update p [] (files (os s))\<rparr>\<rparr>)
      else if is_file (butlast p) (os s) then (Inl NotADirectoryError, s)
      else (Inl (FileNotFoundError (str_path p)), s))"

text \<open>
  Reading in text mode translates line endings (universal newlines): a carriage
  return followed by a line feed, and a carriage return alone, are read as one
  line feed. Carriage return and line feed are single bytes of UTF-8 that occur in
  no longer sequence, so the translation of the text is the translation of its
  encoding.
\<close>

fun universal_newlines :: "string \<Rightarrow> string" where
  "universal_newlines [] = []"
| "universal_newlines [c] = [if c = CHR 0x0D then CHR 0x0A else c]"
| "universal_newlines (c # d # cs) =
     (if c = CHR 0x0D \<and> d = CHR 0x0A then CHR 0x0A # universal_newlines cs
      else if c = CHR 0x0D then CHR 0x0A # universal_newlines (d # cs)
      else c # universal_newlines (d # cs))"

text \<open>Writing in text mode writes \<^verbatim>\<open>os.linesep\<close> for each line feed of the text.\<close>

definition write_newlines :: "string \<Rightarrow> string \<Rightarrow> string" where
  "write_newlines sep t = concat (map (\<lambda>c. if c = CHR 0x0A then sep else [c]) t)"

text \<open>
  \<^verbatim>\<open>Path.read_text()\<close>: opens the file in text mode with the codec of the locale,
  decodes all of it (\<^verbatim>\<open>UnicodeDecodeError\<close> when the bytes cannot be decoded) and
  translates the line endings.
\<close>

definition read_text :: "path \<Rightarrow> string exec" where
  "read_text p s =
     (case map_of (files (os s)) p of
        Some b \<Rightarrow> (case decode (os s) b of
                    None \<Rightarrow> (Inl UnicodeDecodeError, s)
                  | Some t \<Rightarrow> (Inr (universal_newlines t), s))
      | None \<Rightarrow> if is_dir p (os s) then (Inl IsADirectoryError, s)
                else (Inl (FileNotFoundError (str_path p)), s))"

text \<open>
  \<^verbatim>\<open>with p.open(mode="a", encoding="utf-8") as f: f.write(text)\<close>, where \<^verbatim>\<open>text\<close>
  is computed after the file has been opened: opening creates a missing file, the
  text is computed, and its UTF-8 encoding, with the line separator for each line
  feed, is written at the end of the file.
\<close>

definition open_append :: "path \<Rightarrow> unit exec" where
  "open_append p s =
     (if is_dir p (os s) then (Inl IsADirectoryError, s)
      else if is_file p (os s) then (Inr (), s)
      else if is_dir (butlast p) (os s)
        then (Inr (), s\<lparr>os := (os s)\<lparr>files := AList.update p [] (files (os s))\<rparr>\<rparr>)
      else if is_file (butlast p) (os s) then (Inl NotADirectoryError, s)
      else (Inl (FileNotFoundError (str_path p)), s))"

definition write_end :: "path \<Rightarrow> string \<Rightarrow> unit exec" where
  "write_end p t s =
     (case map_of (files (os s)) p of
        None \<Rightarrow> (Inl (FileNotFoundError (str_path p)), s)
      | Some old \<Rightarrow>
          (Inr (), s\<lparr>os := (os s)\<lparr>files := AList.update p (old @ write_newlines (linesep (os s)) t)
                                                  (files (os s))\<rparr>\<rparr>))"

subsection \<open>\<^verbatim>\<open>shutil.make_archive\<close> for the format \<^verbatim>\<open>gztar\<close>\<close>

text \<open>
  The library function, from its documentation: the archive is written to
  \<^verbatim>\<open>base_name\<close> with the suffix of the format; \<^verbatim>\<open>root_dir\<close> is the root of the
  archive, to which the names of all members are relative; \<^verbatim>\<open>base_dir\<close> is where
  archiving starts, given relative to \<^verbatim>\<open>root_dir\<close>. \<^verbatim>\<open>base_name\<close> and \<^verbatim>\<open>root_dir\<close>
  are resolved against the current directory, which is the same before and after
  the call. The directory of the archive is created when missing. The archive
  file is opened before the members are read, so a missing \<^verbatim>\<open>base_dir\<close> leaves an
  archive without members behind. The members are listed directories first; the
  order inside a real archive is that of the directory walk. A path bound more
  than once in the list of files counts once, with the contents a read returns.
\<close>

definition with_suffix :: "path \<Rightarrow> path" where
  "with_suffix b = (if b = [] then [''..tar.gz''] else butlast b @ [last b @ ''.tar.gz''])"

definition archive_members :: "path \<Rightarrow> path \<Rightarrow> os_state \<Rightarrow> (path \<times> string option) list" where
  "archive_members root base o1 =
     map (\<lambda>p. (drop (length root) p, None)) (filter (prefix base) (dirs o1)) @
     map (\<lambda>(p, t). (drop (length root) p, Some t))
       (filter (\<lambda>(p, t). prefix base p) (AList.clearjunk (files o1)))"

text \<open>\<^verbatim>\<open>os.makedirs\<close>: every missing ancestor is created.\<close>

definition makedirs :: "path \<Rightarrow> os_state \<Rightarrow> os_state" where
  "makedirs p o1 = o1\<lparr>dirs := dirs o1 @ filter (\<lambda>q. \<not> is_dir q o1) (prefixes p)\<rparr>"

definition make_archive_gztar :: "path \<Rightarrow> path \<Rightarrow> path \<Rightarrow> path exec" where
  "make_archive_gztar base_name root_dir base_dir s =
     (let o1 = os s;
          root = cwd o1 @ root_dir;
          base = root @ base_dir;
          arch = cwd o1 @ with_suffix base_name;
          archive_dir = butlast arch
      in if \<not> is_dir root o1
           then (Inl (if is_file root o1 then NotADirectoryError
                      else FileNotFoundError (str_path root)), s)
         else if \<not> is_dir archive_dir o1 \<and> (\<exists>q \<in> set (prefixes archive_dir). is_file q o1)
           then (Inl NotADirectoryError, s)
         else let o2 = (if is_dir archive_dir o1 then o1 else makedirs archive_dir o1) in
           if is_dir arch o2 then (Inl IsADirectoryError, s\<lparr>os := o2\<rparr>)
           else if \<not> path_exists base o2
             then (Inl (FileNotFoundError (str_path base)),
                   s\<lparr>os := o2\<lparr>files := AList.update arch (tar_codec o2 []) (files o2)\<rparr>\<rparr>)
           else (Inr arch,
                 s\<lparr>os := o2\<lparr>files :=
                        AList.update arch (tar_codec o2 (archive_members root base o2)) (files o2)\<rparr>\<rparr>))"

subsection \<open>The collaborator calls\<close>

definition call_collect :: "path \<Rightarrow> descriptor list exec" where
  "call_collect p s = (collect (log_area (self s)) (os s) p, s)"

definition call_upload_logs :: "descriptor list \<Rightarrow> unit exec" where
  "call_upload_logs ds s =
     (case upload_logs (log_area (self s)) (trace s) ds of
        None \<Rightarrow> (Inr (), s\<lparr>trace := trace s @ [UploadLogs ds]\<rparr>)
      | Some e \<Rightarrow> (Inl e, s\<lparr>trace := trace s @ [UploadLogs ds]\<rparr>))"

definition call_upload_artifacts :: "descriptor list \<Rightarrow> unit exec" where
  "call_upload_artifacts ds s =
     (case upload_artifacts (log_area (self s)) (trace s) ds of
        None \<Rightarrow> (Inr (), s\<lparr>trace := trace s @ [UploadArtifacts ds]\<rparr>)
      | Some e \<Rightarrow> (Inl e, s\<lparr>trace := trace s @ [UploadArtifacts ds]\<rparr>))"

subsection \<open>The methods of \<^verbatim>\<open>Workspace\<close>\<close>

text \<open>\<^verbatim>\<open>__init__\<close>: the class attributes \<^verbatim>\<open>workspace\<close> and \<^verbatim>\<open>compressed_workspace\<close> start as \<^verbatim>\<open>None\<close>.\<close>

definition init :: "log_area \<Rightarrow> os_state \<Rightarrow> state" where
  "init la o1 =
     \<lparr>self = \<lparr>log_area = la, top_dir = cwd o1, identifiers = Map.empty,
              global_logs = cwd o1 @ [''logs''], global_artifacts = cwd o1 @ [''artifacts''],
              workspace = None, compressed_workspace = None\<rparr>,
      os = o1\<lparr>environ := (environ o1)(''GLOBAL_LOGS'' \<mapsto> str_path (cwd o1 @ [''logs'']),
                                       ''GLOBAL_ARTIFACTS'' \<mapsto> str_path (cwd o1 @ [''artifacts'']))\<rparr>,
      trace = []\<rparr>"

text \<open>Reading \<^verbatim>\<open>self.workspace\<close> where a path is needed.\<close>

definition the_workspace :: "path exec" where
  "the_workspace s =
     (case workspace (self s) of None \<Rightarrow> (Inl AttributeError, s) | Some w \<Rightarrow> (Inr w, s))"

text \<open>\<^verbatim>\<open>self.workspace is None or not self.workspace.is_dir()\<close>, negated.\<close>

definition workspace_created :: "state \<Rightarrow> bool" where
  "workspace_created s =
     (case workspace (self s) of None \<Rightarrow> False | Some w \<Rightarrow> is_dir w (os s))"

text \<open>\<^verbatim>\<open>__enter__(path=None)\<close>. The attribute is assigned before anything can raise.\<close>

definition enter :: "path option \<Rightarrow> unit exec" where
  "enter path s =
     (let w = (case path of Some p \<Rightarrow> p | None \<Rightarrow> top_dir (self s) @ [''workspace'']);
          s1 = s\<lparr>self := (self s)\<lparr>workspace := Some w\<rparr>\<rparr>
      in (thenE (logger_info (relative_to w (top_dir (self s1))))
         (thenE (mkdir_exist_ok w)
         (thenE (mkdir_exist_ok (global_logs (self s1)))
         (thenE (mkdir_exist_ok (global_artifacts (self s1)))
         (thenE (logger_info (relative_to w (top_dir (self s1))))
                (chdir w)))))) s1)"

text \<open>\<^verbatim>\<open>compress\<close>.\<close>

definition compress :: "unit exec" where
  "compress s =
     (if \<not> workspace_created s then (Inl (FileNotFoundError ''Workspace not created.''), s)
      else
        (bindE (\<lambda>s. (relative_to (top_dir (self s) @ [''workspace'']) (cwd (os s)), s))
           (\<lambda>compressed.
        bindE (\<lambda>s. (relative_to (top_dir (self s)) (cwd (os s)), s))
           (\<lambda>root_dir.
        bindE the_workspace
           (\<lambda>w.
        bindE (\<lambda>s. (relative_to w (cwd (os s)), s))
           (\<lambda>base_dir.
        bindE (make_archive_gztar compressed root_dir base_dir)
           (\<lambda>filename s.
              (Inr (), s\<lparr>self := (self s)\<lparr>compressed_workspace := Some filename\<rparr>\<rparr>))))))) s)"

text \<open>
  \<^verbatim>\<open>__exit__(_type, _value, _traceback)\<close>. The three arguments describe the
  exception of the body, if any, and are ignored; the method returns \<^verbatim>\<open>None\<close>, so
  that exception propagates afterwards.
\<close>

definition exit :: "error option \<Rightarrow> unit exec" where
  "exit exc s =
     (thenE (chdir (top_dir (self s)))
     (thenE compress
     (thenE (bindE (\<lambda>s. call_collect (global_logs (self s)) s) call_upload_logs)
     (thenE (bindE (\<lambda>s. call_collect (global_artifacts (self s)) s) call_upload_artifacts)
            (\<lambda>s. case compressed_workspace (self s) of
                    None \<Rightarrow> (Inl AttributeError, s)
                  | Some c \<Rightarrow> call_upload_artifacts [(name_of c, c)] s))))) s"

text \<open>\<^verbatim>\<open>add_to_full_log(report)\<close>.\<close>

definition add_to_full_log :: "path \<Rightarrow> unit exec" where
  "add_to_full_log report s =
     (if path_exists report (os s)
        then (let full_execution = global_logs (self s) @ [''full_execution.log'']
              in (thenE (touch full_execution)
                 (thenE (open_append full_execution)
                 (bindE (read_text report) (write_end full_execution)))) s)
      else (Inr (), s))"

text \<open>
  \<^verbatim>\<open>collect_logs(base_path)\<close> is a generator-based context manager: entering
  the \<^verbatim>\<open>with\<close> runs the generator up to its \<^verbatim>\<open>yield\<close>, leaving the \<^verbatim>\<open>with\<close>
  resumes it after the \<^verbatim>\<open>yield\<close>. The \<^verbatim>\<open>yield\<close> is not inside a \<^verbatim>\<open>try\<close>: an
  exception of the scope is thrown into the generator at the \<^verbatim>\<open>yield\<close> and leaves
  it at once, so the statements after the \<^verbatim>\<open>yield\<close> run only when the scope
  returns. \<^verbatim>\<open>scope\<close> is what runs inside the \<^verbatim>\<open>with\<close>.
\<close>

definition collect_logs_before_yield :: "path \<Rightarrow> unit exec" where
  "collect_logs_before_yield base_path =
     (let log_path = base_path @ [''logs''];
          artifact_path = base_path @ [''artifacts'']
      in thenE (mkdir_exist_ok log_path)
        (thenE (mkdir_exist_ok artifact_path)
        (thenE (setenv ''TEST_ARTIFACT_PATH'' (str_path artifact_path))
        (thenE (setenv ''ARTIFACT_PATH'' (str_path artifact_path))
               (setenv ''LOG_PATH'' (str_path log_path))))))"

definition collect_logs_after_yield :: "path \<Rightarrow> unit exec" where
  "collect_logs_after_yield base_path =
     (let log_path = base_path @ [''logs''];
          artifact_path = base_path @ [''artifacts'']
      in thenE (delenv ''TEST_ARTIFACT_PATH'')
        (thenE (delenv ''ARTIFACT_PATH'')
        (thenE (delenv ''LOG_PATH'')
        (thenE (add_to_full_log (log_path @ [''test_output.log'']))
        (thenE (bindE (call_collect log_path) call_upload_logs)
               (bindE (call_collect artifact_path) call_upload_artifacts))))))"

definition collect_logs :: "path \<Rightarrow> unit exec \<Rightarrow> unit exec" where
  "collect_logs base_path scope =
     thenE (collect_logs_before_yield base_path)
       (thenE scope (collect_logs_after_yield base_path))"

text \<open>Reading \<^verbatim>\<open>self.identifiers.get(identifier)\<close> where a path is needed.\<close>

definition bound_dir :: "string \<Rightarrow> path exec" where
  "bound_dir identifier s =
     (case identifiers (self s) identifier of
        None \<Rightarrow> (Inl TypeError, s)
      | Some d \<Rightarrow> (Inr d, s))"

text \<open>The \<^verbatim>\<open>yield\<close> of \<^verbatim>\<open>test_directory\<close>: the body of the caller's \<^verbatim>\<open>with\<close> runs with the directory.\<close>

definition yield_to :: "string \<Rightarrow> (path \<Rightarrow> proc) \<Rightarrow> path \<Rightarrow> unit exec" where
  "yield_to identifier body d s =
     run_proc (body d) (s\<lparr>trace := trace s @ [Yielded identifier d]\<rparr>)"

text \<open>\<^verbatim>\<open>if on_create is not None: on_create(*on_create_args)\<close>, the arguments inside the closure.\<close>

definition call_on_create :: "string \<Rightarrow> proc option \<Rightarrow> unit exec" where
  "call_on_create identifier on_create s =
     (case on_create of
        None \<Rightarrow> (Inr (), s)
      | Some f \<Rightarrow> run_proc f (s\<lparr>trace := trace s @ [OnCreate identifier]\<rparr>))"

text \<open>
  \<^verbatim>\<open>test_directory(identifier, on_create, *on_create_args)\<close>. Its \<^verbatim>\<open>if/else\<close>
  that finds or creates the directory and changes into it:
\<close>

definition find_or_create :: "string \<Rightarrow> proc option \<Rightarrow> unit exec" where
  "find_or_create identifier on_create s =
     (if identifiers (self s) identifier = None
      then
        (bindE (bindE the_workspace mkdtemp)
           (\<lambda>directory.
        thenE (\<lambda>s. logger_info (relative_to directory (top_dir (self s))) s)
       (thenE (\<lambda>s. (Inr (), s\<lparr>self := (self s)\<lparr>identifiers :=
                         (identifiers (self s))(identifier \<mapsto> directory)\<rparr>\<rparr>))
       (thenE (bindE (bound_dir identifier)
                (\<lambda>d s. logger_info (relative_to d (top_dir (self s))) s))
       (thenE (bindE (bound_dir identifier) chdir)
              (call_on_create identifier on_create)))))) s
      else
        (thenE (bindE (bound_dir identifier)
                 (\<lambda>d s. logger_info (relative_to d (top_dir (self s))) s))
        (thenE (bindE (bound_dir identifier)
                 (\<lambda>d s. logger_info (relative_to d (top_dir (self s))) s))
               (bindE (bound_dir identifier) chdir))) s)"

text \<open>The \<^verbatim>\<open>finally\<close> block.\<close>

definition return_to_workspace :: "unit exec" where
  "return_to_workspace =
     thenE (bindE the_workspace (\<lambda>w s. logger_info (relative_to w (top_dir (self s))) s))
           (bindE the_workspace chdir)"

text \<open>
  The whole method. The precondition is checked before the \<^verbatim>\<open>try\<close>; everything
  else, including the scope of the caller, is inside it.
\<close>

definition test_directory :: "string \<Rightarrow> proc option \<Rightarrow> (path \<Rightarrow> proc) \<Rightarrow> unit exec" where
  "test_directory identifier on_create body s =
     (if \<not> workspace_created s then (Inl (FileNotFoundError ''Workspace not created.''), s)
      else
        finallyE
          (thenE (find_or_create identifier on_create)
             (bindE (bound_dir identifier)
                (\<lambda>base. collect_logs base
                   (bindE (bound_dir identifier) (yield_to identifier body)))))
          return_to_workspace s)"

text \<open>
  The part of the method after its \<^verbatim>\<open>if/else\<close>: the \<^verbatim>\<open>with self.collect_logs(...)\<close>
  block around the \<^verbatim>\<open>yield\<close>, followed by the \<^verbatim>\<open>finally\<close> block.
\<close>

definition scope_of :: "string \<Rightarrow> (path \<Rightarrow> proc) \<Rightarrow> unit exec" where
  "scope_of identifier body =
     finallyE
       (bindE (bound_dir identifier)
          (\<lambda>base. collect_logs base
             (bindE (bound_dir identifier) (yield_to identifier body))))
       return_to_workspace"

subsection \<open>A workspace in use\<close>

text \<open>
  The life of one \<^verbatim>\<open>Workspace\<close> is a sequence of calls of its methods, with code of
  the caller in between. The caller sees an exception of a call and goes on, so
  the state after a call is kept whatever the call returned.
\<close>

datatype call =
    CallEnter "path option"
  | CallExit "error option"
  | CallCompress
  | CallTestDirectory string "proc option" "path \<Rightarrow> proc"
  | CallerCode proc

fun do_call :: "call \<Rightarrow> state \<Rightarrow> state" where
  "do_call (CallEnter p) s = snd (enter p s)"
| "do_call (CallExit exc) s = snd (exit exc s)"
| "do_call CallCompress s = snd (compress s)"
| "do_call (CallTestDirectory identifier on_create body) s =
     snd (test_directory identifier on_create body s)"
| "do_call (CallerCode f) s = snd (run_proc f s)"

fun run_calls :: "call list \<Rightarrow> state \<Rightarrow> state" where
  "run_calls [] s = s"
| "run_calls (c # cs) s = run_calls cs (do_call c s)"

text \<open>The events a call added to the trace.\<close>

definition new_events :: "state \<Rightarrow> state \<Rightarrow> event list" where
  "new_events s s' = drop (length (trace s)) (trace s')"

text \<open>A predicate on states that a computation keeps, whatever it returns.\<close>

definition preserves :: "(state \<Rightarrow> bool) \<Rightarrow> 'a exec \<Rightarrow> bool" where
  "preserves P m = (\<forall>s. P s \<longrightarrow> P (snd (m s)))"

text \<open>
  A computation that acts on the process only: it leaves the object and the
  trace alone and removes no directory.
\<close>

definition os_only :: "'a exec \<Rightarrow> bool" where
  "os_only m =
     (\<forall>s. self (snd (m s)) = self s \<and> trace (snd (m s)) = trace s \<and>
          set (dirs (os s)) \<subseteq> set (dirs (os (snd (m s)))))"

text \<open>
  Two facts about a workspace in use that calls keep. The first: the object was
  constructed in \<^verbatim>\<open>t\<close>, and its workspace \<^verbatim>\<open>w\<close> is an existing directory.
\<close>

definition in_workspace :: "path \<Rightarrow> path \<Rightarrow> state \<Rightarrow> bool" where
  "in_workspace t w s =
     (top_dir (self s) = t \<and> workspace (self s) = Some w \<and> is_dir w (os s))"

text \<open>
  The second: the identifier \<^verbatim>\<open>i\<close> is bound to \<^verbatim>\<open>d\<close>, and since the trace was
  \<^verbatim>\<open>tr0\<close> the callback has not run for \<^verbatim>\<open>i\<close> and every scope opened for \<^verbatim>\<open>i\<close>
  was given \<^verbatim>\<open>d\<close>.
\<close>

definition bound_to :: "string \<Rightarrow> path \<Rightarrow> event list \<Rightarrow> state \<Rightarrow> bool" where
  "bound_to i d tr0 s =
     (identifiers (self s) i = Some d \<and>
      (\<exists>evs. trace s = tr0 @ evs \<and> OnCreate i \<notin> set evs \<and>
             (\<forall>d'. Yielded i d' \<in> set evs \<longrightarrow> d' = d)))"

subsection \<open>Concrete processes, collaborators and bodies\<close>

text \<open>
  The ASCII codec: bytes with the high bit set cannot be decoded, every other byte
  is the character of the same code.
\<close>

definition ascii_decode :: "string \<Rightarrow> string option" where
  "ascii_decode b = (if list_ex digit7 b then None else Some b)"

text \<open>
  A small process: the current directory is \<^verbatim>\<open>/home\<close>, next to a directory
  \<^verbatim>\<open>/other\<close>; the archive encoder lists the names of the members, the locale is
  ASCII and a line ends with a line feed.
\<close>

definition example_os :: os_state where
  "example_os =
     \<lparr>cwd = [''home''], environ = Map.empty,
      dirs = [[], [''home''], [''other'']], files = [],
      tmp_names = [''tmp1'', ''tmp2''],
      tar_codec = (\<lambda>ms. concat (map (\<lambda>(p, c). str_path p) ms)),
      decode = ascii_decode, linesep = [CHR 0x0A]\<rparr>"

text \<open>A log area that describes the files below a path and whose uploads succeed.\<close>

definition example_log_area :: log_area where
  "example_log_area =
     \<lparr>collect = (\<lambda>o1 p. Inr (map (\<lambda>(q, t). (name_of q, q))
                               (filter (\<lambda>(q, t). prefix p q) (files o1)))),
      upload_logs = (\<lambda>_ _. None),
      upload_artifacts = (\<lambda>_ _. None)\<rparr>"

text \<open>The same log area with an upload of logs that raises.\<close>

definition failing_log_area :: log_area where
  "failing_log_area =
     example_log_area\<lparr>upload_logs := (\<lambda>_ _. Some (Raised ''upload_logs failed''))\<rparr>"

text \<open>A body that writes a test log, a body that raises, a callback that raises.\<close>

definition body_writes_log :: "path \<Rightarrow> proc" where
  "body_writes_log d o1 =
     (None, o1\<lparr>files := AList.update (d @ [''logs'', ''test_output.log'']) ''PASSED'' (files o1)\<rparr>)"



definition body_raises :: "path \<Rightarrow> proc" where
  "body_raises d o1 = (Some (Raised ''test failed''), o1)"

definition on_create_raises :: proc where
  "on_create_raises o1 = (Some (Raised ''checkout failed''), o1)"

definition on_create_ok :: proc where
  "on_create_ok o1 = (None, o1\<lparr>files := AList.update (cwd o1 @ [''test.sh'']) ''exit 0'' (files o1)\<rparr>)"

text \<open>A callback that adds a mark to the file \<^verbatim>\<open>/home/created\<close> each time it runs.\<close>

definition on_create_counts :: proc where
  "on_create_counts o1 =
     (None, o1\<lparr>files := AList.update [''home'', ''created'']
                            ((case map_of (files o1) [''home'', ''created''] of
                                None \<Rightarrow> [] | Some t \<Rightarrow> t) @ ''x'')
                            (files o1)\<rparr>)"

text \<open>The workspace constructed in \<^verbatim>\<open>/home\<close> and entered.\<close>

definition example_entered :: "log_area \<Rightarrow> state" where
  "example_entered la = snd (enter None (init la example_os))"




text \<open>Code of the caller that changes the current directory to \<^verbatim>\<open>/other\<close>.\<close>

definition go_other :: proc where
  "go_other o1 = (None, o1\<lparr>cwd := [''other'']\<rparr>)"


text \<open>What the collaborator answers to an upload recorded in the trace, given the calls before it.\<close>

definition upload_outcome :: "log_area \<Rightarrow> event list \<Rightarrow> event \<Rightarrow> error option" where
  "upload_outcome la history ev =
     (case ev of
        UploadLogs ds \<Rightarrow> upload_logs la history ds
      | UploadArtifacts ds \<Rightarrow> upload_artifacts la history ds
      | OnCreate _ \<Rightarrow> None
      | Yielded _ _ \<Rightarrow> None)"

section \<open>Basic facts\<close>

lemma bindE_Inr [simp]: "m s = (Inr x, s') \<Longrightarrow> bindE m f s = f x s'"
  by (simp add: bindE_def)

lemma bindE_Inl [simp]: "m s = (Inl e, s') \<Longrightarrow> bindE m f s = (Inl e, s')"
  by (simp add: bindE_def)

lemma thenE_Inr [simp]: "m s = (Inr x, s') \<Longrightarrow> thenE m k s = k s'"
  by (simp add: thenE_def)

lemma thenE_Inl [simp]: "m s = (Inl e, s') \<Longrightarrow> thenE m k s = (Inl e, s')"
  by (simp add: thenE_def)

lemma snd_logger_info [simp]: "snd (logger_info a s) = s"
  by (cases a) (simp_all add: logger_info_def)

lemma preserves_bindE:
  assumes "preserves P m" and "\<And>x. preserves P (f x)"
  shows "preserves P (bindE m f)"
  unfolding preserves_def
proof (intro allI impI)
  fix s assume p: "P s"
  obtain r s' where ms: "m s = (r, s')" by (cases "m s")
  from assms(1) p have "P (snd (m s))" by (simp add: preserves_def)
  with ms have p': "P s'" by simp
  show "P (snd (bindE m f s))"
  proof (cases r)
    case (Inl e)
    with ms p' show ?thesis by simp
  next
    case (Inr x)
    with ms have "bindE m f s = f x s'" by simp
    with assms(2) [of x] p' show ?thesis by (simp add: preserves_def)
  qed
qed

lemma preserves_thenE:
  "preserves P m \<Longrightarrow> preserves P k \<Longrightarrow> preserves P (thenE m k)"
  by (simp add: thenE_def preserves_bindE)

lemma preserves_finallyE:
  assumes "preserves P m" and "preserves P fin"
  shows "preserves P (finallyE m fin)"
  unfolding preserves_def
proof (intro allI impI)
  fix s assume p: "P s"
  obtain r s' where ms: "m s = (r, s')" by (cases "m s")
  from assms(1) p have "P (snd (m s))" by (simp add: preserves_def)
  with ms have p': "P s'" by simp
  obtain r2 s2 where fs: "fin s' = (r2, s2)" by (cases "fin s'")
  from assms(2) p' have "P (snd (fin s'))" by (simp add: preserves_def)
  with fs have "P s2" by simp
  with ms fs show "P (snd (finallyE m fin s))"
    by (cases r2) (simp_all add: finallyE_def)
qed

lemma os_only_bindE:
  assumes "os_only m" and "\<And>x. os_only (f x)"
  shows "os_only (bindE m f)"
  unfolding os_only_def
proof (intro allI)
  fix s
  obtain r s' where ms: "m s = (r, s')" by (cases "m s")
  from assms(1) have "self (snd (m s)) = self s \<and> trace (snd (m s)) = trace s \<and>
      set (dirs (os s)) \<subseteq> set (dirs (os (snd (m s))))"
    by (simp add: os_only_def)
  with ms have a: "self s' = self s \<and> trace s' = trace s \<and> set (dirs (os s)) \<subseteq> set (dirs (os s'))"
    by simp
  show "self (snd (bindE m f s)) = self s \<and> trace (snd (bindE m f s)) = trace s \<and>
        set (dirs (os s)) \<subseteq> set (dirs (os (snd (bindE m f s))))"
  proof (cases r)
    case (Inl e)
    with ms a show ?thesis by simp
  next
    case (Inr x)
    with ms have b: "bindE m f s = f x s'" by simp
    from assms(2) [of x] have "self (snd (f x s')) = self s' \<and> trace (snd (f x s')) = trace s' \<and>
        set (dirs (os s')) \<subseteq> set (dirs (os (snd (f x s'))))"
      by (simp add: os_only_def)
    with a b show ?thesis by auto
  qed
qed

lemma os_only_thenE: "os_only m \<Longrightarrow> os_only k \<Longrightarrow> os_only (thenE m k)"
  by (simp add: thenE_def os_only_bindE)

lemma os_only_pure: "os_only (\<lambda>s. (g s, s))"
  by (simp add: os_only_def)

lemma os_only_logger: "os_only (\<lambda>s. logger_info (g s) s)"
  by (simp add: os_only_def)

lemma os_only_logger_info: "os_only (logger_info a)"
  by (simp add: os_only_def)

lemma os_only_chdir: "os_only (chdir p)"
  by (simp add: os_only_def chdir_def)

lemma os_only_mkdir_exist_ok: "os_only (mkdir_exist_ok p)"
  by (auto simp: os_only_def mkdir_exist_ok_def)

lemma os_only_setenv: "os_only (setenv k v)"
  by (simp add: os_only_def setenv_def)

lemma os_only_delenv: "os_only (delenv k)"
  by (simp add: os_only_def delenv_def split: option.split)

lemma mkdtemp_try_dirs: "set (dirs o1) \<subseteq> set (dirs (snd (mkdtemp_try d ns o1)))"
  by (induction ns) auto

lemma os_only_mkdtemp: "os_only (mkdtemp d)"
  unfolding os_only_def
proof (intro allI)
  fix s :: state
  obtain r o' where m: "mkdtemp_try d (tmp_names (os s)) (os s) = (r, o')"
    by (cases "mkdtemp_try d (tmp_names (os s)) (os s)")
  with mkdtemp_try_dirs [of "os s" d "tmp_names (os s)"]
  show "self (snd (mkdtemp d s)) = self s \<and> trace (snd (mkdtemp d s)) = trace s \<and>
        set (dirs (os s)) \<subseteq> set (dirs (os (snd (mkdtemp d s))))"
    by (simp add: mkdtemp_def)
qed

lemma os_only_touch: "os_only (touch p)"
  by (simp add: os_only_def touch_def)

lemma os_only_read_text: "os_only (read_text p)"
  by (simp add: os_only_def read_text_def split: option.split)

lemma os_only_open_append: "os_only (open_append p)"
  by (simp add: os_only_def open_append_def)

lemma os_only_write_end: "os_only (write_end p t)"
  by (simp add: os_only_def write_end_def split: option.split)

lemma os_only_the_workspace: "os_only the_workspace"
  by (simp add: os_only_def the_workspace_def split: option.split)

lemma os_only_bound_dir: "os_only (bound_dir i)"
  by (simp add: os_only_def bound_dir_def split: option.split)

lemma os_only_call_collect: "os_only (call_collect p)"
  by (simp add: os_only_def call_collect_def)

lemma os_only_make_archive_gztar: "os_only (make_archive_gztar a b c)"
  by (auto simp: os_only_def make_archive_gztar_def Let_def makedirs_def)

lemma os_only_add_to_full_log: "os_only (add_to_full_log report)"
proof -
  have "os_only (thenE (touch p) (thenE (open_append p) (bindE (read_text report) (write_end p))))" for p
    by (intro os_only_thenE os_only_bindE os_only_touch os_only_open_append os_only_read_text
        os_only_write_end)
  then show ?thesis
    by (simp add: os_only_def add_to_full_log_def Let_def)
qed

lemma os_only_collect_logs_before_yield: "os_only (collect_logs_before_yield base)"
  unfolding collect_logs_before_yield_def Let_def
  by (intro os_only_thenE os_only_mkdir_exist_ok os_only_setenv)

lemma thenE_returns:
  assumes "fst (thenE m k s) = Inr v"
  obtains u where "fst (m s) = Inr u" and "thenE m k s = k (snd (m s))"
proof (cases "m s")
  case (Pair r s')
  show ?thesis
  proof (cases r)
    case (Inl e)
    with Pair assms show ?thesis by simp
  next
    case (Inr u)
    with Pair have "thenE m k s = k (snd (m s))" by simp
    with Pair Inr that show ?thesis by simp
  qed
qed

text \<open>What \<^verbatim>\<open>__enter__\<close> establishes when it returns.\<close>

lemma enter_establishes:
  assumes "fst (enter path s) = Inr ()"
  shows "\<exists>w. workspace (self (snd (enter path s))) = Some w \<and>
             is_dir w (os (snd (enter path s))) \<and>
             prefix (top_dir (self s)) w \<and>
             cwd (os (snd (enter path s))) = w \<and>
             top_dir (self (snd (enter path s))) = top_dir (self s) \<and>
             identifiers (self (snd (enter path s))) = identifiers (self s)"
proof -
  define w where "w = (case path of Some p \<Rightarrow> p | None \<Rightarrow> top_dir (self s) @ [''workspace''])"
  define s1 where "s1 = s\<lparr>self := (self s)\<lparr>workspace := Some w\<rparr>\<rparr>"
  define mk where "mk = thenE (mkdir_exist_ok w)
         (thenE (mkdir_exist_ok (global_logs (self s)))
         (thenE (mkdir_exist_ok (global_artifacts (self s)))
                (logger_info (relative_to w (top_dir (self s))))))"
  have e: "enter path s = thenE (logger_info (relative_to w (top_dir (self s))))
      (thenE mk (chdir w)) s1"
    by (simp add: enter_def Let_def w_def s1_def mk_def thenE_def bindE_def
        split: prod.split sum.split)
  have "os_only mk"
    unfolding mk_def by (intro os_only_thenE os_only_mkdir_exist_ok os_only_logger_info)
  then have m: "self (snd (mk s1)) = self s1"
    by (simp add: os_only_def)
  from assms e obtain u where l: "fst (logger_info (relative_to w (top_dir (self s))) s1) = Inr u"
    and e2: "enter path s = thenE mk (chdir w) s1"
    by (auto elim!: thenE_returns)
  from l have p: "prefix (top_dir (self s)) w"
    by (simp add: logger_info_def relative_to_def split: if_splits)
  from assms e2 obtain u' where e3: "enter path s = chdir w (snd (mk s1))"
    by (auto elim!: thenE_returns)
  with assms have d: "is_dir w (os (snd (mk s1)))"
    by (simp add: chdir_def split: if_splits)
  with e3 m p show ?thesis
    by (intro exI [of _ w]) (simp add: chdir_def s1_def is_dir_def)
qed

text \<open>The entered example workspace, computed.\<close>

lemma example_entered_eq:
  "example_entered la =
     \<lparr>self = \<lparr>log_area = la, top_dir = [''home''], identifiers = Map.empty,
              global_logs = [''home'', ''logs''], global_artifacts = [''home'', ''artifacts''],
              workspace = Some [''home'', ''workspace''], compressed_workspace = None\<rparr>,
      os = \<lparr>cwd = [''home'', ''workspace''],
            environ = [''GLOBAL_LOGS'' \<mapsto> ''/home/logs'', ''GLOBAL_ARTIFACTS'' \<mapsto> ''/home/artifacts''],
            dirs = [[], [''home''], [''other''], [''home'', ''workspace''], [''home'', ''logs''],
                    [''home'', ''artifacts'']],
            files = [], tmp_names = [''tmp1'', ''tmp2''],
            tar_codec = (\<lambda>ms. concat (map (\<lambda>(p, c). str_path p) ms)),
            decode = ascii_decode, linesep = [CHR 0x0A]\<rparr>,
      trace = []\<rparr>"
  by (simp add: example_entered_def enter_def init_def example_os_def Let_def thenE_def bindE_def
      logger_info_def relative_to_def mkdir_exist_ok_def is_dir_def is_file_def chdir_def str_path_def)

section \<open>The precondition of \<^verbatim>\<open>test_directory\<close>\<close>

text \<open>
  Claim C5. For every identifier, callback and body: when the workspace has not
  been created (\<^verbatim>\<open>self.workspace\<close> is \<^verbatim>\<open>None\<close>, or it is not an existing
  directory), \<^verbatim>\<open>test_directory\<close> raises \<^verbatim>\<open>FileNotFoundError("Workspace not created.")\<close>
  and leaves the whole state as it was: no directory is created, the working
  directory and the environment are untouched, nothing is called.
\<close>

theorem test_directory_before_enter:
  assumes "workspace (self s) = None \<or> (\<exists>w. workspace (self s) = Some w \<and> \<not> is_dir w (os s))"
  shows "test_directory identifier on_create body s =
           (Inl (FileNotFoundError ''Workspace not created.''), s)"
  using assms by (auto simp: test_directory_def workspace_created_def)

theorem test_directory_before_enter_witness:
  "workspace (self (init example_log_area example_os)) = None \<and>
   test_directory ''a'' (Some on_create_ok) body_writes_log (init example_log_area example_os) =
     (Inl (FileNotFoundError ''Workspace not created.''), init example_log_area example_os) \<and>
   dirs (os (snd (test_directory ''a'' (Some on_create_ok) body_writes_log
                    (init example_log_area example_os)))) = [[], [''home''], [''other'']]"
proof -
  have h: "workspace (self (init example_log_area example_os)) = None"
    by (simp add: init_def)
  then have "workspace (self (init example_log_area example_os)) = None \<or>
      (\<exists>w. workspace (self (init example_log_area example_os)) = Some w \<and>
           \<not> is_dir w (os (init example_log_area example_os)))"
    by simp
  from test_directory_before_enter [OF this] h show ?thesis
    by (simp add: init_def example_os_def)
qed

section \<open>Compression\<close>




lemma compress_cases:
  "compress s =
     (if \<not> workspace_created s then (Inl (FileNotFoundError ''Workspace not created.''), s)
      else if \<not> prefix (cwd (os s)) (top_dir (self s) @ [''workspace'']) then (Inl ValueError, s)
      else if \<not> prefix (cwd (os s)) (top_dir (self s)) then (Inl ValueError, s)
      else case workspace (self s) of
             None \<Rightarrow> (Inl AttributeError, s)
           | Some w \<Rightarrow>
               if \<not> prefix (cwd (os s)) w then (Inl ValueError, s)
               else (case make_archive_gztar
                            (drop (length (cwd (os s))) (top_dir (self s) @ [''workspace'']))
                            (drop (length (cwd (os s))) (top_dir (self s)))
                            (drop (length (cwd (os s))) w) s of
                       (Inl e, s') \<Rightarrow> (Inl e, s')
                     | (Inr filename, s') \<Rightarrow>
                         (Inr (), s'\<lparr>self := (self s')\<lparr>compressed_workspace := Some filename\<rparr>\<rparr>)))"
  by (simp add: compress_def bindE_def relative_to_def the_workspace_def split: option.split)






section \<open>The cumulative log\<close>









section \<open>Teardown\<close>

lemma make_archive_gztar_frame:
  "self (snd (make_archive_gztar a b c s)) = self s \<and>
   trace (snd (make_archive_gztar a b c s)) = trace s \<and>
   cwd (os (snd (make_archive_gztar a b c s))) = cwd (os s)"
  by (simp add: make_archive_gztar_def Let_def makedirs_def)

lemma compress_frame:
  "trace (snd (compress s)) = trace s \<and>
   cwd (os (snd (compress s))) = cwd (os s) \<and>
   log_area (self (snd (compress s))) = log_area (self s) \<and>
   top_dir (self (snd (compress s))) = top_dir (self s) \<and>
   identifiers (self (snd (compress s))) = identifiers (self s) \<and>
   workspace (self (snd (compress s))) = workspace (self s)"
proof -
  have "trace (snd (case p of (Inl e, s') \<Rightarrow> (Inl e, s')
                  | (Inr filename, s') \<Rightarrow>
                      (Inr (), s'\<lparr>self := (self s')\<lparr>compressed_workspace := Some filename\<rparr>\<rparr>))) =
          trace (snd p) \<and>
        cwd (os (snd (case p of (Inl e, s') \<Rightarrow> (Inl e, s')
                  | (Inr filename, s') \<Rightarrow>
                      (Inr (), s'\<lparr>self := (self s')\<lparr>compressed_workspace := Some filename\<rparr>\<rparr>)))) =
          cwd (os (snd p)) \<and>
        log_area (self (snd (case p of (Inl e, s') \<Rightarrow> (Inl e, s')
                  | (Inr filename, s') \<Rightarrow>
                      (Inr (), s'\<lparr>self := (self s')\<lparr>compressed_workspace := Some filename\<rparr>\<rparr>)))) =
          log_area (self (snd p)) \<and>
        top_dir (self (snd (case p of (Inl e, s') \<Rightarrow> (Inl e, s')
                  | (Inr filename, s') \<Rightarrow>
                      (Inr (), s'\<lparr>self := (self s')\<lparr>compressed_workspace := Some filename\<rparr>\<rparr>)))) =
          top_dir (self (snd p)) \<and>
        identifiers (self (snd (case p of (Inl e, s') \<Rightarrow> (Inl e, s')
                  | (Inr filename, s') \<Rightarrow>
                      (Inr (), s'\<lparr>self := (self s')\<lparr>compressed_workspace := Some filename\<rparr>\<rparr>)))) =
          identifiers (self (snd p)) \<and>
        workspace (self (snd (case p of (Inl e, s') \<Rightarrow> (Inl e, s')
                  | (Inr filename, s') \<Rightarrow>
                      (Inr (), s'\<lparr>self := (self s')\<lparr>compressed_workspace := Some filename\<rparr>\<rparr>)))) =
          workspace (self (snd p))"
    for p :: "(error + path) \<times> state"
    by (cases p) (auto split: sum.split)
  then show ?thesis
    by (simp add: compress_cases make_archive_gztar_frame split: option.split)
qed


lemma call_upload_logs_eq:
  "call_upload_logs ds s =
     (case upload_logs (log_area (self s)) (trace s) ds of None \<Rightarrow> Inr () | Some e \<Rightarrow> Inl e,
      s\<lparr>trace := trace s @ [UploadLogs ds]\<rparr>)"
  by (simp add: call_upload_logs_def split: option.split)

lemma call_upload_artifacts_eq:
  "call_upload_artifacts ds s =
     (case upload_artifacts (log_area (self s)) (trace s) ds of None \<Rightarrow> Inr () | Some e \<Rightarrow> Inl e,
      s\<lparr>trace := trace s @ [UploadArtifacts ds]\<rparr>)"
  by (simp add: call_upload_artifacts_def split: option.split)

text \<open>The three uploads of \<^verbatim>\<open>__exit__\<close>, from the state \<^verbatim>\<open>compress\<close> returned in.\<close>

lemma exit_uploads_trace:
  fixes s :: state
  defines "U \<equiv> thenE (bindE (\<lambda>s. call_collect (global_logs (self s)) s) call_upload_logs)
     (thenE (bindE (\<lambda>s. call_collect (global_artifacts (self s)) s) call_upload_artifacts)
            (\<lambda>s. case compressed_workspace (self s) of
                    None \<Rightarrow> (Inl AttributeError, s)
                  | Some c \<Rightarrow> call_upload_artifacts [(name_of c, c)] s))"
  shows "\<exists>evs. trace (snd (U s)) = trace s @ evs \<and> os (snd (U s)) = os s \<and>
           (\<exists>l a c. prefix evs [UploadLogs l, UploadArtifacts a, UploadArtifacts [(name_of c, c)]]) \<and>
           (fst (U s) = Inr () \<longrightarrow> length evs = 3) \<and>
           (\<forall>i e. i < length evs \<and>
                  upload_outcome (log_area (self s)) (trace s @ take i evs) (evs ! i) = Some e \<longrightarrow>
                  Suc i = length evs \<and> fst (U s) = Inl e)"
proof (cases "collect (log_area (self s)) (os s) (global_logs (self s))")
  case (Inl e)
  then have "U s = (Inl e, s)"
    by (simp add: U_def thenE_def bindE_def call_collect_def)
  then show ?thesis by (intro exI [of _ "[]"]) simp
next
  case l: (Inr l)
  define s1 where "s1 = s\<lparr>trace := trace s @ [UploadLogs l]\<rparr>"
  show ?thesis
  proof (cases "upload_logs (log_area (self s)) (trace s) l")
    case (Some e)
    with l have "U s = (Inl e, s1)"
      by (simp add: U_def thenE_def bindE_def call_collect_def call_upload_logs_eq s1_def)
    with Some show ?thesis
      by (intro exI [of _ "[UploadLogs l]"]) (auto simp: s1_def upload_outcome_def)
  next
    case ul: None
    show ?thesis
    proof (cases "collect (log_area (self s)) (os s) (global_artifacts (self s))")
      case (Inl e)
      with l ul have "U s = (Inl e, s1)"
        by (simp add: U_def thenE_def bindE_def call_collect_def call_upload_logs_eq s1_def)
      with ul show ?thesis
        by (intro exI [of _ "[UploadLogs l]"]) (auto simp: s1_def upload_outcome_def)
    next
      case a: (Inr a)
      define s2 where "s2 = s\<lparr>trace := trace s @ [UploadLogs l, UploadArtifacts a]\<rparr>"
      show ?thesis
      proof (cases "upload_artifacts (log_area (self s)) (trace s @ [UploadLogs l]) a")
        case (Some e)
        with l ul a have "U s = (Inl e, s2)"
          by (simp add: U_def thenE_def bindE_def call_collect_def call_upload_logs_eq
              call_upload_artifacts_eq s2_def)
        with ul Some show ?thesis
          by (intro exI [of _ "[UploadLogs l, UploadArtifacts a]"])
            (auto simp: s2_def upload_outcome_def less_Suc_eq)
      next
        case ua: None
        show ?thesis
        proof (cases "compressed_workspace (self s)")
          case None
          with l ul a ua have "U s = (Inl AttributeError, s2)"
            by (simp add: U_def thenE_def bindE_def call_collect_def call_upload_logs_eq
                call_upload_artifacts_eq s2_def)
          with ul ua show ?thesis
            by (intro exI [of _ "[UploadLogs l, UploadArtifacts a]"])
              (auto simp: s2_def upload_outcome_def less_Suc_eq)
        next
          case c: (Some c)
          define s3 where "s3 = s\<lparr>trace := trace s @ [UploadLogs l, UploadArtifacts a,
            UploadArtifacts [(name_of c, c)]]\<rparr>"
          define r where "r = upload_artifacts (log_area (self s))
            (trace s @ [UploadLogs l, UploadArtifacts a]) [(name_of c, c)]"
          from l ul a ua c have u: "U s = (case r of None \<Rightarrow> Inr () | Some e \<Rightarrow> Inl e, s3)"
            by (simp add: U_def thenE_def bindE_def call_collect_def call_upload_logs_eq
                call_upload_artifacts_eq s3_def r_def)
          show ?thesis
          proof (intro exI [of _ "[UploadLogs l, UploadArtifacts a, UploadArtifacts [(name_of c, c)]]"]
              conjI allI impI)
            show "trace (snd (U s)) =
                trace s @ [UploadLogs l, UploadArtifacts a, UploadArtifacts [(name_of c, c)]]"
              by (simp add: u s3_def)
            show "os (snd (U s)) = os s" by (simp add: u s3_def)
            show "\<exists>l' a' c'. prefix [UploadLogs l, UploadArtifacts a, UploadArtifacts [(name_of c, c)]]
                [UploadLogs l', UploadArtifacts a', UploadArtifacts [(name_of c', c')]]"
              by blast
            show "length [UploadLogs l, UploadArtifacts a, UploadArtifacts [(name_of c, c)]] = 3"
              by simp
          next
            fix i e
            assume h: "i < length [UploadLogs l, UploadArtifacts a, UploadArtifacts [(name_of c, c)]] \<and>
              upload_outcome (log_area (self s))
                (trace s @ take i [UploadLogs l, UploadArtifacts a, UploadArtifacts [(name_of c, c)]])
                ([UploadLogs l, UploadArtifacts a, UploadArtifacts [(name_of c, c)]] ! i) = Some e"
            then have "i = 0 \<or> i = 1 \<or> i = 2" by auto
            with h ul ua have i: "i = 2" and re: "r = Some e"
              by (auto simp: upload_outcome_def r_def)
            from i show "Suc i = length [UploadLogs l, UploadArtifacts a,
                UploadArtifacts [(name_of c, c)]]"
              by simp
            from re show "fst (U s) = Inl e" by (simp add: u)
          qed
        qed
      qed
    qed
  qed
qed


lemma exit_cases:
  "exit exc s =
     (if is_dir (top_dir (self s)) (os s)
      then (case compress (s\<lparr>os := (os s)\<lparr>cwd := top_dir (self s)\<rparr>\<rparr>) of
              (Inl e, s2) \<Rightarrow> (Inl e, s2)
            | (Inr u, s2) \<Rightarrow>
                thenE (bindE (\<lambda>s. call_collect (global_logs (self s)) s) call_upload_logs)
                  (thenE (bindE (\<lambda>s. call_collect (global_artifacts (self s)) s) call_upload_artifacts)
                     (\<lambda>s. case compressed_workspace (self s) of
                             None \<Rightarrow> (Inl AttributeError, s)
                           | Some c \<Rightarrow> call_upload_artifacts [(name_of c, c)] s)) s2)
      else (Inl (if is_file (top_dir (self s)) (os s) then NotADirectoryError
                 else FileNotFoundError (str_path (top_dir (self s)))), s))"
  by (simp add: exit_def chdir_def thenE_def bindE_def split: prod.split sum.split)

lemma exit_summary:
  "\<exists>evs. trace (snd (exit exc s)) = trace s @ evs \<and>
         (is_dir (top_dir (self s)) (os s) \<longrightarrow> cwd (os (snd (exit exc s))) = top_dir (self s)) \<and>
         (\<exists>l a c. prefix evs [UploadLogs l, UploadArtifacts a, UploadArtifacts [(name_of c, c)]]) \<and>
         (fst (exit exc s) = Inr () \<longrightarrow> length evs = 3) \<and>
         (\<forall>i e. i < length evs \<and>
                upload_outcome (log_area (self s)) (trace s @ take i evs) (evs ! i) = Some e \<longrightarrow>
                Suc i = length evs \<and> fst (exit exc s) = Inl e)"
proof (cases "is_dir (top_dir (self s)) (os s)")
  case False
  then show ?thesis
    by (intro exI [of _ "[]"]) (simp add: exit_cases)
next
  case True
  define s1 where "s1 = s\<lparr>os := (os s)\<lparr>cwd := top_dir (self s)\<rparr>\<rparr>"
  obtain r s2 where c: "compress s1 = (r, s2)" by (cases "compress s1")
  from compress_frame [of s1] c
  have f: "trace s2 = trace s" "cwd (os s2) = top_dir (self s)" "log_area (self s2) = log_area (self s)"
    by (simp_all add: s1_def)
  show ?thesis
  proof (cases r)
    case (Inl e)
    with True c f show ?thesis
      by (intro exI [of _ "[]"]) (simp add: exit_cases s1_def [symmetric])
  next
    case (Inr u)
    define U where "U = thenE (bindE (\<lambda>s. call_collect (global_logs (self s)) s) call_upload_logs)
          (thenE (bindE (\<lambda>s. call_collect (global_artifacts (self s)) s) call_upload_artifacts)
             (\<lambda>s. case compressed_workspace (self s) of
                     None \<Rightarrow> (Inl AttributeError, s)
                   | Some c \<Rightarrow> call_upload_artifacts [(name_of c, c)] s))"
    from Inr True c have e: "exit exc s = U s2"
      by (simp add: exit_cases s1_def [symmetric] U_def)
    note t = exit_uploads_trace [of s2, folded U_def, folded e]
    from t obtain evs where ev: "trace (snd (exit exc s)) = trace s2 @ evs"
      and o: "os (snd (exit exc s)) = os s2"
      and p: "\<exists>l a c. prefix evs [UploadLogs l, UploadArtifacts a, UploadArtifacts [(name_of c, c)]]"
      and k: "fst (exit exc s) = Inr () \<longrightarrow> length evs = 3"
      and q: "\<forall>i e. i < length evs \<and>
                upload_outcome (log_area (self s2)) (trace s2 @ take i evs) (evs ! i) = Some e \<longrightarrow>
                Suc i = length evs \<and> fst (exit exc s) = Inl e"
      by blast
    show ?thesis
    proof (intro exI [of _ evs] conjI)
      show "trace (snd (exit exc s)) = trace s @ evs" using ev f by simp
      show "is_dir (top_dir (self s)) (os s) \<longrightarrow> cwd (os (snd (exit exc s))) = top_dir (self s)"
        using o f by simp
      show "\<exists>l a c. prefix evs [UploadLogs l, UploadArtifacts a, UploadArtifacts [(name_of c, c)]]"
        by (rule p)
      show "fst (exit exc s) = Inr () \<longrightarrow> length evs = 3" by (rule k)
      show "\<forall>i e. i < length evs \<and>
                upload_outcome (log_area (self s)) (trace s @ take i evs) (evs ! i) = Some e \<longrightarrow>
                Suc i = length evs \<and> fst (exit exc s) = Inl e"
        using q unfolding f .
    qed
  qed
qed

lemma compress_keeps_areas:
  "global_logs (self (snd (compress s))) = global_logs (self s) \<and>
   global_artifacts (self (snd (compress s))) = global_artifacts (self s) \<and>
   (fst (compress s) = Inr () \<longrightarrow> compressed_workspace (self (snd (compress s))) \<noteq> None)"
proof -
  have "global_logs (self (snd (case p of (Inl e, s') \<Rightarrow> (Inl e, s')
                  | (Inr filename, s') \<Rightarrow>
                      (Inr (), s'\<lparr>self := (self s')\<lparr>compressed_workspace := Some filename\<rparr>\<rparr>)))) =
          global_logs (self (snd p)) \<and>
        global_artifacts (self (snd (case p of (Inl e, s') \<Rightarrow> (Inl e, s')
                  | (Inr filename, s') \<Rightarrow>
                      (Inr (), s'\<lparr>self := (self s')\<lparr>compressed_workspace := Some filename\<rparr>\<rparr>)))) =
          global_artifacts (self (snd p)) \<and>
        (fst (case p of (Inl e, s') \<Rightarrow> (Inl e, s')
                  | (Inr filename, s') \<Rightarrow>
                      (Inr (), s'\<lparr>self := (self s')\<lparr>compressed_workspace := Some filename\<rparr>\<rparr>)) = Inr () \<longrightarrow>
         compressed_workspace (self (snd (case p of (Inl e, s') \<Rightarrow> (Inl e, s')
                  | (Inr filename, s') \<Rightarrow>
                      (Inr (), s'\<lparr>self := (self s')\<lparr>compressed_workspace := Some filename\<rparr>\<rparr>)))) \<noteq> None)"
    for p :: "(error + path) \<times> state"
    by (cases p) (auto split: sum.split)
  then show ?thesis
    by (simp add: compress_cases make_archive_gztar_frame split: option.split)
qed

text \<open>What the three uploads add to the trace and return, step by step.\<close>

lemma uploads_outcome:
  fixes s2 :: state
  defines "U \<equiv> thenE (bindE (\<lambda>s. call_collect (global_logs (self s)) s) call_upload_logs)
     (thenE (bindE (\<lambda>s. call_collect (global_artifacts (self s)) s) call_upload_artifacts)
            (\<lambda>s. case compressed_workspace (self s) of
                    None \<Rightarrow> (Inl AttributeError, s)
                  | Some c \<Rightarrow> call_upload_artifacts [(name_of c, c)] s))"
  assumes "log_area (self s2) = la" and "trace s2 = tr" and "global_logs (self s2) = gl"
    and "global_artifacts (self s2) = ga" and "compressed_workspace (self s2) = Some c"
  shows "(case collect la (os s2) gl of
           Inl e \<Rightarrow> drop (length tr) (trace (snd (U s2))) = [] \<and> fst (U s2) = Inl e
         | Inr l \<Rightarrow>
            (case upload_logs la tr l of
               Some e \<Rightarrow> drop (length tr) (trace (snd (U s2))) = [UploadLogs l] \<and> fst (U s2) = Inl e
             | None \<Rightarrow>
                (case collect la (os s2) ga of
                   Inl e \<Rightarrow> drop (length tr) (trace (snd (U s2))) = [UploadLogs l] \<and> fst (U s2) = Inl e
                 | Inr a \<Rightarrow>
                    (case upload_artifacts la (tr @ [UploadLogs l]) a of
                       Some e \<Rightarrow> drop (length tr) (trace (snd (U s2))) = [UploadLogs l, UploadArtifacts a] \<and>
                                 fst (U s2) = Inl e
                     | None \<Rightarrow>
                         drop (length tr) (trace (snd (U s2))) =
                           [UploadLogs l, UploadArtifacts a, UploadArtifacts [(name_of c, c)]] \<and>
                         fst (U s2) =
                           (case upload_artifacts la (tr @ [UploadLogs l, UploadArtifacts a])
                                   [(name_of c, c)] of
                              None \<Rightarrow> Inr () | Some e \<Rightarrow> Inl e)))))"
  using assms(2-6) unfolding U_def
  by (auto simp: thenE_def bindE_def call_collect_def call_upload_logs_eq call_upload_artifacts_eq
      split: sum.split option.split)

section \<open>What a call keeps\<close>

lemma preservesD: "preserves P m \<Longrightarrow> P s \<Longrightarrow> P (snd (m s))"
  by (simp add: preserves_def)

lemma os_only_preserves:
  assumes "os_only m"
    and "\<And>s s'. P s \<Longrightarrow> self s' = self s \<Longrightarrow> trace s' = trace s \<Longrightarrow>
           set (dirs (os s)) \<subseteq> set (dirs (os s')) \<Longrightarrow> P s'"
  shows "preserves P m"
  using assms unfolding os_only_def preserves_def by blast

lemma preserves_call_upload_logs:
  assumes "\<And>s ds. P s \<Longrightarrow> P (s\<lparr>trace := trace s @ [UploadLogs ds]\<rparr>)"
  shows "preserves P (call_upload_logs ds)"
  using assms by (simp add: preserves_def call_upload_logs_eq)

lemma preserves_call_upload_artifacts:
  assumes "\<And>s ds. P s \<Longrightarrow> P (s\<lparr>trace := trace s @ [UploadArtifacts ds]\<rparr>)"
  shows "preserves P (call_upload_artifacts ds)"
  using assms by (simp add: preserves_def call_upload_artifacts_eq)

text \<open>The statements after the \<^verbatim>\<open>yield\<close> of \<^verbatim>\<open>collect_logs\<close>.\<close>

lemma preserves_collect_logs_after_yield:
  assumes os: "\<And>m :: unit exec. os_only m \<Longrightarrow> preserves P m"
    and osd: "\<And>m :: descriptor list exec. os_only m \<Longrightarrow> preserves P m"
    and ul: "\<And>s ds. P s \<Longrightarrow> P (s\<lparr>trace := trace s @ [UploadLogs ds]\<rparr>)"
    and ua: "\<And>s ds. P s \<Longrightarrow> P (s\<lparr>trace := trace s @ [UploadArtifacts ds]\<rparr>)"
  shows "preserves P (collect_logs_after_yield base)"
  unfolding collect_logs_after_yield_def Let_def
  by (intro preserves_thenE preserves_bindE preserves_call_upload_logs
      preserves_call_upload_artifacts ul ua os [OF os_only_delenv] os [OF os_only_add_to_full_log]
      osd [OF os_only_call_collect])

lemma preserves_collect_logs:
  assumes os: "\<And>m :: unit exec. os_only m \<Longrightarrow> preserves P m"
    and osd: "\<And>m :: descriptor list exec. os_only m \<Longrightarrow> preserves P m"
    and ul: "\<And>s ds. P s \<Longrightarrow> P (s\<lparr>trace := trace s @ [UploadLogs ds]\<rparr>)"
    and ua: "\<And>s ds. P s \<Longrightarrow> P (s\<lparr>trace := trace s @ [UploadArtifacts ds]\<rparr>)"
    and scope: "preserves P scope"
  shows "preserves P (collect_logs base scope)"
  unfolding collect_logs_def
  by (intro preserves_thenE scope os [OF os_only_collect_logs_before_yield]
      preserves_collect_logs_after_yield os osd ul ua)

lemma os_only_return_to_workspace: "os_only return_to_workspace"
  unfolding return_to_workspace_def
  by (intro os_only_thenE os_only_bindE os_only_the_workspace os_only_logger os_only_chdir)

text \<open>
  \<^verbatim>\<open>test_directory\<close> keeps a predicate that its parts keep: the steps that act on
  the process only, the uploads, the \<^verbatim>\<open>if/else\<close> that finds or creates the
  directory, and the body with the directory it is given. First its \<^verbatim>\<open>try\<close>
  block alone, then the whole method.
\<close>

lemma preserves_try_block:
  assumes os: "\<And>m :: unit exec. os_only m \<Longrightarrow> preserves P m"
    and osd: "\<And>m :: descriptor list exec. os_only m \<Longrightarrow> preserves P m"
    and osp: "\<And>m :: path exec. os_only m \<Longrightarrow> preserves P m"
    and ul: "\<And>s ds. P s \<Longrightarrow> P (s\<lparr>trace := trace s @ [UploadLogs ds]\<rparr>)"
    and ua: "\<And>s ds. P s \<Longrightarrow> P (s\<lparr>trace := trace s @ [UploadArtifacts ds]\<rparr>)"
    and foc: "preserves P (find_or_create identifier on_create)"
    and yld: "preserves P (bindE (bound_dir identifier) (yield_to identifier body))"
  shows "preserves P
          (thenE (find_or_create identifier on_create)
             (bindE (bound_dir identifier)
                (\<lambda>base. collect_logs base
                   (bindE (bound_dir identifier) (yield_to identifier body)))))"
  by (intro preserves_thenE preserves_bindE foc preserves_collect_logs
      os osd ul ua yld osp [OF os_only_bound_dir])

lemma preserves_test_directory:
  assumes os: "\<And>m :: unit exec. os_only m \<Longrightarrow> preserves P m"
    and osd: "\<And>m :: descriptor list exec. os_only m \<Longrightarrow> preserves P m"
    and osp: "\<And>m :: path exec. os_only m \<Longrightarrow> preserves P m"
    and ul: "\<And>s ds. P s \<Longrightarrow> P (s\<lparr>trace := trace s @ [UploadLogs ds]\<rparr>)"
    and ua: "\<And>s ds. P s \<Longrightarrow> P (s\<lparr>trace := trace s @ [UploadArtifacts ds]\<rparr>)"
    and foc: "preserves P (find_or_create identifier on_create)"
    and yld: "preserves P (bindE (bound_dir identifier) (yield_to identifier body))"
  shows "preserves P (test_directory identifier on_create body)"
proof -
  have "preserves P (finallyE
          (thenE (find_or_create identifier on_create)
             (bindE (bound_dir identifier)
                (\<lambda>base. collect_logs base
                   (bindE (bound_dir identifier) (yield_to identifier body)))))
          return_to_workspace)"
    by (intro preserves_finallyE preserves_try_block assms os [OF os_only_return_to_workspace])
  then show ?thesis
    by (simp add: preserves_def test_directory_def)
qed

lemma os_only_call_collect_self: "os_only (\<lambda>s. call_collect (g s) s)"
  by (simp add: os_only_def call_collect_def)

text \<open>The same for \<^verbatim>\<open>__exit__\<close>, \<^verbatim>\<open>__enter__\<close> and a whole sequence of calls.\<close>

lemma preserves_exit:
  assumes os: "\<And>m :: unit exec. os_only m \<Longrightarrow> preserves P m"
    and osd: "\<And>m :: descriptor list exec. os_only m \<Longrightarrow> preserves P m"
    and ul: "\<And>s ds. P s \<Longrightarrow> P (s\<lparr>trace := trace s @ [UploadLogs ds]\<rparr>)"
    and ua: "\<And>s ds. P s \<Longrightarrow> P (s\<lparr>trace := trace s @ [UploadArtifacts ds]\<rparr>)"
    and cp: "preserves P compress"
  shows "preserves P (exit exc)"
  unfolding preserves_def
proof (intro allI impI)
  fix s assume p: "P s"
  have last: "preserves P (\<lambda>s. case compressed_workspace (self s) of
                    None \<Rightarrow> (Inl AttributeError, s)
                  | Some c \<Rightarrow> call_upload_artifacts [(name_of c, c)] s)"
    using ua by (simp add: preserves_def call_upload_artifacts_eq split: option.split)
  have "preserves P (thenE (chdir (top_dir (self s)))
     (thenE compress
     (thenE (bindE (\<lambda>s. call_collect (global_logs (self s)) s) call_upload_logs)
     (thenE (bindE (\<lambda>s. call_collect (global_artifacts (self s)) s) call_upload_artifacts)
            (\<lambda>s. case compressed_workspace (self s) of
                    None \<Rightarrow> (Inl AttributeError, s)
                  | Some c \<Rightarrow> call_upload_artifacts [(name_of c, c)] s)))))"
    by (intro preserves_thenE preserves_bindE cp last os [OF os_only_chdir]
        osd [OF os_only_call_collect_self] preserves_call_upload_logs
        preserves_call_upload_artifacts ul ua)
  from preservesD [OF this p] show "P (snd (exit exc s))"
    by (simp add: exit_def)
qed

lemma preserves_enter:
  assumes os: "\<And>m :: unit exec. os_only m \<Longrightarrow> preserves P m"
    and ws: "\<And>s w. P s \<Longrightarrow> P (s\<lparr>self := (self s)\<lparr>workspace := w\<rparr>\<rparr>)"
  shows "preserves P (enter path)"
  unfolding preserves_def
proof (intro allI impI)
  fix s assume p: "P s"
  define w where "w = (case path of Some p \<Rightarrow> p | None \<Rightarrow> top_dir (self s) @ [''workspace''])"
  define s1 where "s1 = s\<lparr>self := (self s)\<lparr>workspace := Some w\<rparr>\<rparr>"
  have "preserves P (thenE (logger_info (relative_to w (top_dir (self s))))
         (thenE (mkdir_exist_ok w)
         (thenE (mkdir_exist_ok (global_logs (self s)))
         (thenE (mkdir_exist_ok (global_artifacts (self s)))
         (thenE (logger_info (relative_to w (top_dir (self s))))
                (chdir w))))))"
    by (intro preserves_thenE os os_only_logger_info os_only_mkdir_exist_ok os_only_chdir)
  moreover from p have "P s1" unfolding s1_def by (rule ws)
  ultimately show "P (snd (enter path s))"
    by (simp add: enter_def Let_def preserves_def w_def [symmetric] s1_def [symmetric])
qed

lemma preserves_run_proc:
  assumes "\<And>s o'. P s \<Longrightarrow> P (s\<lparr>os := o'\<rparr>)"
  shows "preserves P (run_proc f)"
  using assms by (simp add: preserves_def run_proc_def split: prod.split option.split)

section \<open>The working directory after a test-directory scope\<close>

lemma in_workspace_os_only: "os_only m \<Longrightarrow> preserves (in_workspace t w) m"
  by (rule os_only_preserves) (auto simp: in_workspace_def is_dir_def)

lemma in_workspace_find_or_create:
  assumes cb: "\<And>f o1. on_create = Some f \<Longrightarrow> is_dir w o1 \<Longrightarrow> is_dir w (snd (f o1))"
  shows "preserves (in_workspace t w) (find_or_create identifier on_create)"
proof -
  have upd: "preserves (in_workspace t w)
      (\<lambda>s. (Inr (), s\<lparr>self := (self s)\<lparr>identifiers := (identifiers (self s))(identifier \<mapsto> d)\<rparr>\<rparr>))" for d
    by (simp add: preserves_def in_workspace_def)
  have oc: "preserves (in_workspace t w) (call_on_create identifier on_create)"
  proof (cases on_create)
    case None
    then show ?thesis by (simp add: preserves_def call_on_create_def)
  next
    case (Some f)
    show ?thesis
      unfolding preserves_def
    proof (intro allI impI)
      fix s assume p: "in_workspace t w s"
      obtain r o' where f: "f (os s) = (r, o')" by (cases "f (os s)")
      from cb [OF Some, of "os s"] p f have "is_dir w o'" by (simp add: in_workspace_def)
      with p f Some show "in_workspace t w (snd (call_on_create identifier on_create s))"
        by (cases r) (simp_all add: in_workspace_def call_on_create_def run_proc_def)
    qed
  qed
  have a: "preserves (in_workspace t w)
        (bindE (bindE the_workspace mkdtemp)
           (\<lambda>directory.
        thenE (\<lambda>s. logger_info (relative_to directory (top_dir (self s))) s)
       (thenE (\<lambda>s. (Inr (), s\<lparr>self := (self s)\<lparr>identifiers :=
                         (identifiers (self s))(identifier \<mapsto> directory)\<rparr>\<rparr>))
       (thenE (bindE (bound_dir identifier)
                (\<lambda>d s. logger_info (relative_to d (top_dir (self s))) s))
       (thenE (bindE (bound_dir identifier) chdir)
              (call_on_create identifier on_create))))))"
    by (intro preserves_bindE preserves_thenE upd oc in_workspace_os_only os_only_the_workspace
        os_only_mkdtemp os_only_logger os_only_bound_dir os_only_chdir)
  have b: "preserves (in_workspace t w)
        (thenE (bindE (bound_dir identifier)
                 (\<lambda>d s. logger_info (relative_to d (top_dir (self s))) s))
        (thenE (bindE (bound_dir identifier)
                 (\<lambda>d s. logger_info (relative_to d (top_dir (self s))) s))
               (bindE (bound_dir identifier) chdir)))"
    by (intro preserves_bindE preserves_thenE in_workspace_os_only
        os_only_logger os_only_bound_dir os_only_chdir)
  from a b show ?thesis
    by (simp add: preserves_def find_or_create_def)
qed

lemma in_workspace_yield:
  assumes "\<And>d o1. is_dir w o1 \<Longrightarrow> is_dir w (snd (body d o1))"
  shows "preserves (in_workspace t w) (bindE (bound_dir identifier) (yield_to identifier body))"
proof -
  have y: "preserves (in_workspace t w) (yield_to identifier body d)" for d
    unfolding preserves_def
  proof (intro allI impI)
    fix s assume p: "in_workspace t w s"
    obtain r o' where f: "body d (os s) = (r, o')" by (cases "body d (os s)")
    from assms [of "os s" d] p f have "is_dir w o'" by (simp add: in_workspace_def)
    with p f show "in_workspace t w (snd (yield_to identifier body d s))"
      by (cases r) (simp_all add: in_workspace_def yield_to_def run_proc_def)
  qed
  show ?thesis
    by (intro preserves_bindE y in_workspace_os_only [OF os_only_bound_dir])
qed

lemma return_to_workspace_cwd:
  assumes "in_workspace t w s" and "prefix t w"
  shows "cwd (os (snd (return_to_workspace s))) = w"
  using assms
  by (simp add: return_to_workspace_def in_workspace_def the_workspace_def thenE_def bindE_def
      logger_info_def relative_to_def chdir_def)

text \<open>
  Claim C6. On an entered workspace (the workspace \<^verbatim>\<open>w\<close> is an existing directory
  below \<^verbatim>\<open>top_dir\<close>), with a callback and a body that do not remove the workspace
  directory, the current directory after \<^verbatim>\<open>test_directory\<close> is \<^verbatim>\<open>w\<close>, whatever
  the call returns: normally, with the exception of \<^verbatim>\<open>on_create\<close>, with the
  exception of the body, or with any other exception raised inside the \<^verbatim>\<open>try\<close>.
\<close>

theorem test_directory_restores_cwd:
  assumes "workspace (self s) = Some w" and "is_dir w (os s)" and "prefix (top_dir (self s)) w"
    and body: "\<And>d o1. is_dir w o1 \<Longrightarrow> is_dir w (snd (body d o1))"
    and cb: "\<And>f o1. on_create = Some f \<Longrightarrow> is_dir w o1 \<Longrightarrow> is_dir w (snd (f o1))"
  shows "cwd (os (snd (test_directory identifier on_create body s))) = w"
proof -
  define t where "t = top_dir (self s)"
  define try_block where "try_block =
    thenE (find_or_create identifier on_create)
      (bindE (bound_dir identifier)
         (\<lambda>base. collect_logs base (bindE (bound_dir identifier) (yield_to identifier body))))"
  have p: "in_workspace t w s"
    using assms(1,2) by (simp add: in_workspace_def t_def)
  have "preserves (in_workspace t w) try_block"
    unfolding try_block_def
    by (intro preserves_try_block in_workspace_os_only in_workspace_find_or_create
        in_workspace_yield body cb)
      (simp_all add: in_workspace_def)
  from preservesD [OF this p] have p1: "in_workspace t w (snd (try_block s))" .
  obtain r s1 where tb: "try_block s = (r, s1)" by (cases "try_block s")
  with p1 have "in_workspace t w s1" by simp
  with assms(3) have c: "cwd (os (snd (return_to_workspace s1))) = w"
    by (intro return_to_workspace_cwd [of t]) (simp_all add: t_def)
  from assms(1,2) have "test_directory identifier on_create body s =
      finallyE try_block return_to_workspace s"
    by (simp add: test_directory_def workspace_created_def try_block_def)
  with tb c show ?thesis
    by (cases "return_to_workspace s1") (auto simp: finallyE_def split: sum.split)
qed

lemmas run_defs =
  test_directory_def workspace_created_def finallyE_def find_or_create_def the_workspace_def
  mkdtemp_def path_exists_def is_dir_def is_file_def collect_logs_def
  collect_logs_before_yield_def collect_logs_after_yield_def yield_to_def run_proc_def
  return_to_workspace_def thenE_def bindE_def logger_info_def relative_to_def bound_dir_def
  chdir_def mkdir_exist_ok_def setenv_def delenv_def call_on_create_def Let_def str_path_def
  add_to_full_log_def call_collect_def call_upload_logs_eq call_upload_artifacts_eq
  ascii_decode_def write_newlines_def

lemma example_body_raises:
  "fst (test_directory ''a'' None body_raises (example_entered example_log_area)) =
     Inl (Raised ''test failed'') \<and>
   cwd (os (snd (test_directory ''a'' None body_raises (example_entered example_log_area)))) =
     [''home'', ''workspace''] \<and>
   environ (os (snd (test_directory ''a'' None body_raises (example_entered example_log_area))))
     ''LOG_PATH'' = Some ''/home/workspace/tmp1/logs'' \<and>
   environ (os (snd (test_directory ''a'' None body_raises (example_entered example_log_area))))
     ''ARTIFACT_PATH'' = Some ''/home/workspace/tmp1/artifacts'' \<and>
   environ (os (snd (test_directory ''a'' None body_raises (example_entered example_log_area))))
     ''TEST_ARTIFACT_PATH'' = Some ''/home/workspace/tmp1/artifacts'' \<and>
   trace (snd (test_directory ''a'' None body_raises (example_entered example_log_area))) =
     [Yielded ''a'' [''home'', ''workspace'', ''tmp1'']]"
  by (simp add: example_entered_eq run_defs body_raises_def)

lemma example_body_returns:
  "fst (test_directory ''a'' (Some on_create_ok) body_writes_log
          (example_entered example_log_area)) = Inr () \<and>
   cwd (os (snd (test_directory ''a'' (Some on_create_ok) body_writes_log
          (example_entered example_log_area)))) = [''home'', ''workspace''] \<and>
   environ (os (snd (test_directory ''a'' (Some on_create_ok) body_writes_log
          (example_entered example_log_area)))) ''LOG_PATH'' = None \<and>
   trace (snd (test_directory ''a'' (Some on_create_ok) body_writes_log
          (example_entered example_log_area))) =
     [OnCreate ''a'', Yielded ''a'' [''home'', ''workspace'', ''tmp1''],
      UploadLogs [(''test_output.log'',
                   [''home'', ''workspace'', ''tmp1'', ''logs'', ''test_output.log''])],
      UploadArtifacts []]"
  by (simp add: example_entered_eq run_defs body_writes_log_def on_create_ok_def
      example_log_area_def name_of_def touch_def open_append_def read_text_def write_end_def)

lemma example_on_create_raises:
  "fst (test_directory ''a'' (Some on_create_raises) body_writes_log
          (example_entered example_log_area)) = Inl (Raised ''checkout failed'') \<and>
   cwd (os (snd (test_directory ''a'' (Some on_create_raises) body_writes_log
          (example_entered example_log_area)))) = [''home'', ''workspace''] \<and>
   identifiers (self (snd (test_directory ''a'' (Some on_create_raises) body_writes_log
          (example_entered example_log_area)))) ''a'' = Some [''home'', ''workspace'', ''tmp1''] \<and>
   trace (snd (test_directory ''a'' (Some on_create_raises) body_writes_log
          (example_entered example_log_area))) = [OnCreate ''a'']"
  by (simp add: example_entered_eq run_defs on_create_raises_def)

theorem test_directory_restores_cwd_witness:
  "fst (test_directory ''a'' None body_raises (example_entered example_log_area)) =
     Inl (Raised ''test failed'') \<and>
   cwd (os (snd (test_directory ''a'' None body_raises (example_entered example_log_area)))) =
     [''home'', ''workspace''] \<and>
   fst (test_directory ''a'' (Some on_create_raises) body_writes_log
          (example_entered example_log_area)) = Inl (Raised ''checkout failed'') \<and>
   cwd (os (snd (test_directory ''a'' (Some on_create_raises) body_writes_log
          (example_entered example_log_area)))) = [''home'', ''workspace''] \<and>
   fst (test_directory ''a'' (Some on_create_ok) body_writes_log
          (example_entered example_log_area)) = Inr () \<and>
   cwd (os (snd (test_directory ''a'' (Some on_create_ok) body_writes_log
          (example_entered example_log_area)))) = [''home'', ''workspace'']"
proof -
  define s where "s = example_entered example_log_area"
  define w where "w = [''home'', ''workspace'']"
  have h1: "workspace (self s) = Some w" and h2: "is_dir w (os s)"
    and h3: "prefix (top_dir (self s)) w"
    by (simp_all add: s_def w_def example_entered_eq is_dir_def)
  have b1: "is_dir w o1 \<Longrightarrow> is_dir w (snd (body_raises d o1))" for d o1
    by (simp add: body_raises_def)
  have b2: "is_dir w o1 \<Longrightarrow> is_dir w (snd (body_writes_log d o1))" for d o1
    by (simp add: body_writes_log_def is_dir_def)
  have c0: "(None :: proc option) = Some f \<Longrightarrow> is_dir w o1 \<Longrightarrow> is_dir w (snd (f o1))" for f o1
    by simp
  have c1: "Some on_create_raises = Some f \<Longrightarrow> is_dir w o1 \<Longrightarrow> is_dir w (snd (f o1))" for f o1
    by (auto simp: on_create_raises_def)
  have c2: "Some on_create_ok = Some f \<Longrightarrow> is_dir w o1 \<Longrightarrow> is_dir w (snd (f o1))" for f o1
    by (auto simp: on_create_ok_def is_dir_def)
  have "cwd (os (snd (test_directory ''a'' None body_raises s))) = w"
    by (rule test_directory_restores_cwd) (auto simp: h1 h2 h3 b1)
  moreover have "cwd (os (snd (test_directory ''a'' (Some on_create_raises) body_writes_log s))) = w"
    by (rule test_directory_restores_cwd) (auto simp: h1 h2 h3 b2 c1)
  moreover have "cwd (os (snd (test_directory ''a'' (Some on_create_ok) body_writes_log s))) = w"
    by (rule test_directory_restores_cwd) (auto simp: h1 h2 h3 b2 c2)
  ultimately show ?thesis
    using example_body_raises example_on_create_raises example_body_returns
    unfolding s_def w_def by simp
qed

section \<open>The environment of a scope\<close>

text \<open>
  Claim C2, at a body that raises. The workspace is entered, \<^verbatim>\<open>test_directory("a")\<close>
  is called without a callback, and the body of the scope raises. The exception
  reaches the caller, the working directory is back in the workspace, and
  \<^verbatim>\<open>LOG_PATH\<close>, \<^verbatim>\<open>ARTIFACT_PATH\<close> and \<^verbatim>\<open>TEST_ARTIFACT_PATH\<close> are still set to the
  directories of the scope that has closed: the statements after the \<^verbatim>\<open>yield\<close>
  of \<^verbatim>\<open>collect_logs\<close> did not run.
\<close>

theorem environment_left_set_when_body_raises:
  "fst (test_directory ''a'' None body_raises (example_entered example_log_area)) =
     Inl (Raised ''test failed'') \<and>
   environ (os (snd (test_directory ''a'' None body_raises (example_entered example_log_area))))
     ''LOG_PATH'' = Some ''/home/workspace/tmp1/logs'' \<and>
   environ (os (snd (test_directory ''a'' None body_raises (example_entered example_log_area))))
     ''ARTIFACT_PATH'' = Some ''/home/workspace/tmp1/artifacts'' \<and>
   environ (os (snd (test_directory ''a'' None body_raises (example_entered example_log_area))))
     ''TEST_ARTIFACT_PATH'' = Some ''/home/workspace/tmp1/artifacts''"
  using example_body_raises by simp

section \<open>Bindings of identifiers\<close>

lemma bound_to_os_only: "os_only m \<Longrightarrow> preserves (bound_to i d tr0) m"
  by (rule os_only_preserves) (auto simp: bound_to_def)

lemma bound_to_upload_logs:
  "bound_to i d tr0 s \<Longrightarrow> bound_to i d tr0 (s\<lparr>trace := trace s @ [UploadLogs ds]\<rparr>)"
  by (auto simp: bound_to_def)

lemma bound_to_upload_artifacts:
  "bound_to i d tr0 s \<Longrightarrow> bound_to i d tr0 (s\<lparr>trace := trace s @ [UploadArtifacts ds]\<rparr>)"
  by (auto simp: bound_to_def)

lemma bound_to_find_or_create:
  "preserves (bound_to i d tr0) (find_or_create identifier on_create)"
  unfolding preserves_def
proof (intro allI impI)
  fix s assume p: "bound_to i d tr0 s"
  show "bound_to i d tr0 (snd (find_or_create identifier on_create s))"
  proof (cases "identifiers (self s) identifier = None")
    case True
    with p have ne: "identifier \<noteq> i" by (auto simp: bound_to_def)
    have upd: "preserves (bound_to i d tr0)
        (\<lambda>s. (Inr (), s\<lparr>self := (self s)\<lparr>identifiers := (identifiers (self s))(identifier \<mapsto> x)\<rparr>\<rparr>))"
      for x
      using ne by (simp add: preserves_def bound_to_def)
    have oc: "preserves (bound_to i d tr0) (call_on_create identifier on_create)"
      using ne
      by (auto simp: preserves_def bound_to_def call_on_create_def run_proc_def
          split: option.split prod.split)
    have "preserves (bound_to i d tr0)
        (bindE (bindE the_workspace mkdtemp)
           (\<lambda>directory.
        thenE (\<lambda>s. logger_info (relative_to directory (top_dir (self s))) s)
       (thenE (\<lambda>s. (Inr (), s\<lparr>self := (self s)\<lparr>identifiers :=
                         (identifiers (self s))(identifier \<mapsto> directory)\<rparr>\<rparr>))
       (thenE (bindE (bound_dir identifier)
                (\<lambda>d s. logger_info (relative_to d (top_dir (self s))) s))
       (thenE (bindE (bound_dir identifier) chdir)
              (call_on_create identifier on_create))))))"
      by (intro preserves_bindE preserves_thenE upd oc bound_to_os_only os_only_the_workspace
          os_only_mkdtemp os_only_logger os_only_bound_dir os_only_chdir)
    from preservesD [OF this p] show ?thesis
      by (simp only: find_or_create_def True if_True simp_thms)
  next
    case False
    have "preserves (bound_to i d tr0)
        (thenE (bindE (bound_dir identifier)
                 (\<lambda>d s. logger_info (relative_to d (top_dir (self s))) s))
        (thenE (bindE (bound_dir identifier)
                 (\<lambda>d s. logger_info (relative_to d (top_dir (self s))) s))
               (bindE (bound_dir identifier) chdir)))"
      by (intro preserves_bindE preserves_thenE bound_to_os_only
          os_only_logger os_only_bound_dir os_only_chdir)
    from preservesD [OF this p] show ?thesis
      by (simp only: find_or_create_def False if_False simp_thms)
  qed
qed

lemma bound_to_yield:
  "preserves (bound_to i d tr0) (bindE (bound_dir identifier) (yield_to identifier body))"
  unfolding preserves_def
proof (intro allI impI)
  fix s assume p: "bound_to i d tr0 s"
  show "bound_to i d tr0 (snd (bindE (bound_dir identifier) (yield_to identifier body) s))"
  proof (cases "identifiers (self s) identifier")
    case None
    with p show ?thesis by (simp add: bindE_def bound_dir_def)
  next
    case (Some x)
    then have e: "bindE (bound_dir identifier) (yield_to identifier body) s =
        run_proc (body x) (s\<lparr>trace := trace s @ [Yielded identifier x]\<rparr>)"
      by (simp add: bindE_def bound_dir_def yield_to_def)
    from p Some have "bound_to i d tr0 (s\<lparr>trace := trace s @ [Yielded identifier x]\<rparr>)"
      by (auto simp: bound_to_def)
    then show ?thesis
      unfolding e by (simp add: bound_to_def run_proc_def split: prod.split option.split)
  qed
qed

lemma bound_to_test_directory:
  "preserves (bound_to i d tr0) (test_directory identifier on_create body)"
  by (intro preserves_test_directory bound_to_os_only bound_to_upload_logs
      bound_to_upload_artifacts bound_to_find_or_create bound_to_yield)

lemma bound_to_compress: "preserves (bound_to i d tr0) compress"
  using compress_frame by (simp add: preserves_def bound_to_def)

lemma bound_to_do_call: "bound_to i d tr0 s \<Longrightarrow> bound_to i d tr0 (do_call c s)"
proof (cases c)
  case (CallEnter p)
  assume "bound_to i d tr0 s"
  moreover have "preserves (bound_to i d tr0) (enter p)"
    by (intro preserves_enter bound_to_os_only) (auto simp: bound_to_def)
  ultimately show ?thesis using CallEnter by (simp add: preserves_def)
next
  case (CallExit exc)
  assume "bound_to i d tr0 s"
  moreover have "preserves (bound_to i d tr0) (exit exc)"
    by (intro preserves_exit bound_to_os_only bound_to_upload_logs bound_to_upload_artifacts
        bound_to_compress)
  ultimately show ?thesis using CallExit by (simp add: preserves_def)
next
  case CallCompress
  assume "bound_to i d tr0 s"
  with bound_to_compress show ?thesis using CallCompress by (simp add: preserves_def)
next
  case (CallTestDirectory j oc b)
  assume "bound_to i d tr0 s"
  with bound_to_test_directory [of i d tr0 j oc b] show ?thesis
    using CallTestDirectory by (simp add: preserves_def)
next
  case (CallerCode f)
  assume "bound_to i d tr0 s"
  moreover have "preserves (bound_to i d tr0) (run_proc f)"
    by (intro preserves_run_proc) (auto simp: bound_to_def)
  ultimately show ?thesis using CallerCode by (simp add: preserves_def)
qed

lemma bound_to_run_calls: "bound_to i d tr0 s \<Longrightarrow> bound_to i d tr0 (run_calls cs s)"
  by (induction cs arbitrary: s) (simp_all add: bound_to_do_call)

lemma bound_to_start: "identifiers (self s) i = Some d \<Longrightarrow> bound_to i d (trace s) s"
  by (simp add: bound_to_def)

lemma bound_to_new_events:
  assumes "bound_to i d (trace s) s'"
  shows "identifiers (self s') i = Some d \<and> trace s' = trace s @ new_events s s' \<and>
         OnCreate i \<notin> set (new_events s s') \<and>
         (\<forall>d'. Yielded i d' \<in> set (new_events s s') \<longrightarrow> d' = d)"
  using assms by (auto simp: bound_to_def new_events_def)

lemma mkdtemp_try_Inr:
  "mkdtemp_try w ns o1 = (Inr d, o2) \<Longrightarrow> prefix w d \<and> is_dir d o2"
  by (induction ns) (auto simp: is_dir_def split: if_splits)

lemma find_or_create_unbound:
  assumes "identifiers (self s) i = None"
  shows "(fst (find_or_create i oc s) = Inr () \<longrightarrow>
            (\<exists>d. identifiers (self (snd (find_or_create i oc s))) i = Some d) \<and>
            trace (snd (find_or_create i oc s)) =
              trace s @ (case oc of None \<Rightarrow> [] | Some f \<Rightarrow> [OnCreate i])) \<and>
         (\<exists>pre. trace (snd (find_or_create i oc s)) = trace s @ pre \<and> set pre \<subseteq> {OnCreate i})"
  using assms
  by (auto simp: find_or_create_def bindE_def thenE_def the_workspace_def mkdtemp_def
      logger_info_def relative_to_def bound_dir_def chdir_def call_on_create_def run_proc_def
      split: option.splits prod.splits sum.splits if_splits)


lemma snd_finallyE: "snd (finallyE m fin s) = snd (fin (snd (m s)))"
  by (simp add: finallyE_def split: prod.split sum.split)

lemma bound_to_scope:
  "preserves (bound_to i d tr0)
     (bindE (bound_dir j)
        (\<lambda>base. collect_logs base (bindE (bound_dir j) (yield_to j body))))"
  by (intro preserves_bindE preserves_collect_logs bound_to_yield bound_to_upload_logs
      bound_to_upload_artifacts bound_to_os_only os_only_bound_dir)

text \<open>The call that binds an identifier.\<close>

lemma first_call:
  assumes u: "identifiers (self s) i = None"
  shows "trace (snd (test_directory i oc body s)) =
           trace s @ new_events s (snd (test_directory i oc body s)) \<and>
         (Yielded i d1 \<in> set (new_events s (snd (test_directory i oc body s))) \<longrightarrow>
            identifiers (self (snd (test_directory i oc body s))) i = Some d1 \<and>
            count_list (new_events s (snd (test_directory i oc body s))) (OnCreate i) =
              (case oc of None \<Rightarrow> 0 | Some f \<Rightarrow> 1))"
proof (cases "workspace_created s")
  case False
  then show ?thesis by (simp add: test_directory_def new_events_def)
next
  case True
  define rest where "rest = bindE (bound_dir i)
        (\<lambda>base. collect_logs base (bindE (bound_dir i) (yield_to i body)))"
  define s1 where "s1 = snd (test_directory i oc body s)"
  obtain r0 s0 where f: "find_or_create i oc s = (r0, s0)" by (cases "find_or_create i oc s")
  from True have td: "test_directory i oc body s =
      finallyE (thenE (find_or_create i oc) rest) return_to_workspace s"
    by (simp add: test_directory_def rest_def)
  from find_or_create_unbound [OF u, of oc] f
  obtain pre where pre: "trace s0 = trace s @ pre" "set pre \<subseteq> {OnCreate i}"
    and ok: "r0 = Inr () \<longrightarrow> (\<exists>d. identifiers (self s0) i = Some d) \<and>
            trace s0 = trace s @ (case oc of None \<Rightarrow> [] | Some f \<Rightarrow> [OnCreate i])"
    by auto
  have ret: "self (snd (return_to_workspace x)) = self x \<and> trace (snd (return_to_workspace x)) = trace x"
    for x using os_only_return_to_workspace by (simp add: os_only_def)
  show ?thesis
  proof (cases r0)
    case (Inl e)
    with f have "thenE (find_or_create i oc) rest s = (Inl e, s0)" by simp
    then have "s1 = snd (return_to_workspace s0)"
      by (simp add: s1_def td snd_finallyE)
    with ret [of s0] pre have "trace s1 = trace s @ pre" by simp
    with pre(2) show ?thesis
      unfolding s1_def [symmetric] by (auto simp: new_events_def)
  next
    case (Inr x)
    with ok obtain d where d: "identifiers (self s0) i = Some d"
      and t0: "trace s0 = trace s @ (case oc of None \<Rightarrow> [] | Some f \<Rightarrow> [OnCreate i])"
      by auto
    from Inr f have "thenE (find_or_create i oc) rest s = rest s0" by simp
    then have s1: "s1 = snd (return_to_workspace (snd (rest s0)))"
      by (simp add: s1_def td snd_finallyE)
    have "bound_to i d (trace s0) (snd (rest s0))"
      unfolding rest_def by (intro preservesD [OF bound_to_scope] bound_to_start d)
    with ret [of "snd (rest s0)"] s1 have "bound_to i d (trace s0) s1"
      by (simp add: bound_to_def)
    then obtain evs where b: "identifiers (self s1) i = Some d" "trace s1 = trace s0 @ evs"
      "OnCreate i \<notin> set evs" "\<forall>d'. Yielded i d' \<in> set evs \<longrightarrow> d' = d"
      by (auto simp: bound_to_def)
    define pre0 where "pre0 = (case oc of None \<Rightarrow> [] | Some f \<Rightarrow> [OnCreate i])"
    from b(2) t0 have "trace s1 = trace s @ pre0 @ evs" by (simp add: pre0_def)
    then have n: "new_events s s1 = pre0 @ evs" and tr: "trace s1 = trace s @ new_events s s1"
      by (simp_all add: new_events_def)
    from b(3) have c0: "count_list evs (OnCreate i) = 0"
      by (simp add: count_list_0_iff)
    have y: "Yielded i d1 \<in> set (pre0 @ evs) \<longrightarrow> d1 = d"
      using b(4) by (auto simp: pre0_def split: option.splits)
    have c: "count_list (pre0 @ evs) (OnCreate i) = (case oc of None \<Rightarrow> 0 | Some f \<Rightarrow> 1)"
      using c0 by (simp add: pre0_def split: option.splits)
    from tr y c b(1) show ?thesis
      unfolding s1_def [symmetric] n by simp
  qed
qed

text \<open>What the \<^verbatim>\<open>if/else\<close> of \<^verbatim>\<open>test_directory\<close> does, and the scope that follows it.\<close>

lemma find_or_create_trace:
  "\<exists>pre. trace (snd (find_or_create i oc s)) = trace s @ pre \<and> set pre \<subseteq> {OnCreate i}"
  by (auto simp: find_or_create_def bindE_def thenE_def the_workspace_def mkdtemp_def
      logger_info_def relative_to_def bound_dir_def chdir_def call_on_create_def run_proc_def
      split: option.splits prod.splits sum.splits if_splits)

lemma test_directory_scope:
  assumes "workspace_created s" and "find_or_create i oc s = (Inr (), sa)"
  shows "test_directory i oc body s = scope_of i body sa"
  using assms by (simp add: test_directory_def scope_of_def finallyE_def)

lemma return_to_workspace_frame:
  "self (snd (return_to_workspace x)) = self x \<and> trace (snd (return_to_workspace x)) = trace x"
  using os_only_return_to_workspace by (simp add: os_only_def)

lemma scope_of_bound:
  assumes "identifiers (self sa) i = Some d"
  shows "bound_to i d (trace sa) (snd (scope_of i body sa))"
proof -
  define rest where "rest = bindE (bound_dir i)
        (\<lambda>base. collect_logs base (bindE (bound_dir i) (yield_to i body)))"
  have "bound_to i d (trace sa) (snd (rest sa))"
    unfolding rest_def by (intro preservesD [OF bound_to_scope] bound_to_start assms)
  with return_to_workspace_frame [of "snd (rest sa)"] show ?thesis
    by (simp add: scope_of_def snd_finallyE rest_def [symmetric] bound_to_def)
qed

lemma scope_of_unbound:
  assumes "identifiers (self sa) i = None"
  shows "trace (snd (scope_of i body sa)) = trace sa"
  using assms return_to_workspace_frame [of sa]
  by (simp add: scope_of_def snd_finallyE bindE_def bound_dir_def)

lemma yielded_first:
  assumes y: "Yielded i d \<in> set (new_events s (snd (test_directory i oc body s)))"
  shows "workspace_created s \<and> fst (find_or_create i oc s) = Inr () \<and>
         identifiers (self (snd (find_or_create i oc s))) i = Some d"
proof -
  have wc: "workspace_created s"
  proof (rule ccontr)
    assume "\<not> workspace_created s"
    with y show False by (simp add: test_directory_def new_events_def)
  qed
  obtain r0 s0 where f: "find_or_create i oc s = (r0, s0)" by (cases "find_or_create i oc s")
  from find_or_create_trace [of i oc s] f
  obtain pre where pre: "trace s0 = trace s @ pre" "set pre \<subseteq> {OnCreate i}"
    by auto
  then have np: "Yielded i d \<notin> set pre" by auto
  show ?thesis
  proof (cases r0)
    case (Inl e)
    with wc f have "snd (test_directory i oc body s) = snd (return_to_workspace s0)"
      by (simp add: test_directory_def snd_finallyE)
    with return_to_workspace_frame [of s0] pre
    have "new_events s (snd (test_directory i oc body s)) = pre"
      by (simp add: new_events_def)
    with y np show ?thesis by simp
  next
    case (Inr u)
    with f have f': "find_or_create i oc s = (Inr (), s0)" by simp
    note td = test_directory_scope [OF wc f', of body]
    show ?thesis
    proof (cases "identifiers (self s0) i")
      case None
      from scope_of_unbound [OF None, of body] pre
      have "new_events s (snd (test_directory i oc body s)) = pre"
        by (simp add: td new_events_def)
      with y np show ?thesis by simp
    next
      case (Some d')
      from scope_of_bound [OF Some, of body]
      obtain evs where e: "trace (snd (scope_of i body s0)) = trace s0 @ evs"
        "\<forall>x. Yielded i x \<in> set evs \<longrightarrow> x = d'"
        by (auto simp: bound_to_def)
      with pre have "new_events s (snd (test_directory i oc body s)) = pre @ evs"
        by (simp add: td new_events_def)
      with y np e(2) have "d = d'" by auto
      with wc f' Some show ?thesis by simp
    qed
  qed
qed

lemma find_or_create_creates:
  assumes u: "identifiers (self s) i = None" and r: "find_or_create i oc s = (Inr (), sa)"
  shows "\<exists>w d o1. workspace (self s) = Some w \<and>
           mkdtemp_try w (tmp_names (os s)) (os s) = (Inr d, o1) \<and>
           (case oc of None \<Rightarrow> True | Some f \<Rightarrow> fst (f (o1\<lparr>cwd := d\<rparr>)) = None) \<and>
           sa = s\<lparr>self := (self s)\<lparr>identifiers := (identifiers (self s))(i \<mapsto> d)\<rparr>,
                  os := (case oc of None \<Rightarrow> o1\<lparr>cwd := d\<rparr> | Some f \<Rightarrow> snd (f (o1\<lparr>cwd := d\<rparr>))),
                  trace := trace s @ (case oc of None \<Rightarrow> [] | Some f \<Rightarrow> [OnCreate i])\<rparr>"
proof -
  from u r obtain w where w: "workspace (self s) = Some w"
    by (cases "workspace (self s)") (simp_all add: find_or_create_def bindE_def the_workspace_def)
  obtain rm o1 where mk: "mkdtemp_try w (tmp_names (os s)) (os s) = (rm, o1)"
    by (cases "mkdtemp_try w (tmp_names (os s)) (os s)")
  from u r w mk obtain d where d: "rm = Inr d"
    by (cases rm) (simp_all add: find_or_create_def bindE_def the_workspace_def mkdtemp_def)
  from mkdtemp_try_Inr [OF mk [unfolded d]] have isd: "is_dir d o1" by simp
  have pt: "prefix (top_dir (self s)) d"
  proof (rule ccontr)
    assume "\<not> prefix (top_dir (self s)) d"
    with u r w mk d show False
      by (simp add: find_or_create_def bindE_def thenE_def the_workspace_def mkdtemp_def
          logger_info_def relative_to_def)
  qed
  show ?thesis
  proof (cases oc)
    case None
    with u r w mk d isd pt show ?thesis
      by (simp add: find_or_create_def bindE_def thenE_def the_workspace_def mkdtemp_def
          logger_info_def relative_to_def bound_dir_def chdir_def call_on_create_def)
  next
    case (Some f)
    obtain ro o2 where f: "f (o1\<lparr>cwd := d\<rparr>) = (ro, o2)" by (cases "f (o1\<lparr>cwd := d\<rparr>)")
    show ?thesis
    proof (cases ro)
      case None
      with Some f u r w mk d isd pt show ?thesis
        by (auto simp: find_or_create_def bindE_def thenE_def the_workspace_def mkdtemp_def
            logger_info_def relative_to_def bound_dir_def chdir_def call_on_create_def run_proc_def)
    next
      case (Some e)
      with \<open>oc = Some f\<close> f u r w mk d isd pt show ?thesis
        by (simp add: find_or_create_def bindE_def thenE_def the_workspace_def mkdtemp_def
            logger_info_def relative_to_def bound_dir_def chdir_def call_on_create_def run_proc_def)
    qed
  qed
qed

lemma find_or_create_finds:
  assumes b: "identifiers (self s) i = Some d" and r: "fst (find_or_create i oc s) = Inr ()"
  shows "find_or_create i oc s = (Inr (), s\<lparr>os := (os s)\<lparr>cwd := d\<rparr>\<rparr>)"
  using assms
  by (auto simp: find_or_create_def bindE_def thenE_def logger_info_def relative_to_def
      bound_dir_def chdir_def split: if_splits)

lemma bound_ignores_callback:
  assumes "identifiers (self s) i = Some d"
  shows "test_directory i oc body s = test_directory i None body s"
proof -
  from assms have "find_or_create i oc s = find_or_create i None s"
    by (simp add: find_or_create_def)
  then show ?thesis
    by (simp add: test_directory_def finallyE_def thenE_def bindE_def)
qed

text \<open>
  Claim C3. Let \<^verbatim>\<open>identifier\<close> be unbound, and let \<^verbatim>\<open>test_directory(identifier)\<close>
  be called, then any calls of the workspace and code of the caller may follow,
  then \<^verbatim>\<open>test_directory(identifier)\<close> is called again. If both calls reach
  their \<^verbatim>\<open>yield\<close>, they yield the same directory; that directory is what the
  identifier is bound to after the first call, before and after the second, and
  after any further calls; \<^verbatim>\<open>on_create\<close> runs for the identifier once in the
  first call if it was given (and not at all if it was \<^verbatim>\<open>None\<close>), and never
  after the first call.

  The callback is seen at work, not only in the trace. The first call is the scope
  run from the state in which \<^verbatim>\<open>mkdtemp\<close> has made the directory, the identifier is
  bound to it, it is the current directory, and the callback has been applied to
  that process once (and has returned). The second call is the scope run from the
  state it was called in with only the current directory changed, whatever callback
  it was given. And from the first call on, a call for the identifier with a
  callback does what the same call without a callback does.
\<close>

theorem test_directory_twice:
  assumes "identifiers (self s) identifier = None"
    and "s1 = snd (test_directory identifier on_create1 body1 s)"
    and "s2 = snd (test_directory identifier on_create2 body2 (run_calls cs s1))"
    and "Yielded identifier d1 \<in> set (new_events s s1)"
    and "Yielded identifier d2 \<in> set (new_events (run_calls cs s1) s2)"
  shows "d2 = d1 \<and>
         identifiers (self s1) identifier = Some d1 \<and>
         identifiers (self (run_calls cs s1)) identifier = Some d1 \<and>
         identifiers (self s2) identifier = Some d1 \<and>
         (\<forall>later. identifiers (self (run_calls later s2)) identifier = Some d1) \<and>
         count_list (new_events s s1) (OnCreate identifier) =
           (case on_create1 of None \<Rightarrow> 0 | Some f \<Rightarrow> 1) \<and>
         OnCreate identifier \<notin> set (new_events s1 s2) \<and>
         (\<exists>w o1. workspace (self s) = Some w \<and>
                 mkdtemp_try w (tmp_names (os s)) (os s) = (Inr d1, o1) \<and>
                 (case on_create1 of None \<Rightarrow> True | Some f \<Rightarrow> fst (f (o1\<lparr>cwd := d1\<rparr>)) = None) \<and>
                 test_directory identifier on_create1 body1 s =
                   scope_of identifier body1
                     (s\<lparr>self := (self s)\<lparr>identifiers := (identifiers (self s))(identifier \<mapsto> d1)\<rparr>,
                        os := (case on_create1 of
                                 None \<Rightarrow> o1\<lparr>cwd := d1\<rparr>
                               | Some f \<Rightarrow> snd (f (o1\<lparr>cwd := d1\<rparr>))),
                        trace := trace s @ (case on_create1 of
                                              None \<Rightarrow> []
                                            | Some f \<Rightarrow> [OnCreate identifier])\<rparr>)) \<and>
         test_directory identifier on_create2 body2 (run_calls cs s1) =
           scope_of identifier body2
             ((run_calls cs s1)\<lparr>os := (os (run_calls cs s1))\<lparr>cwd := d1\<rparr>\<rparr>) \<and>
         (\<forall>later on_create body.
            test_directory identifier on_create body (run_calls later s1) =
            test_directory identifier None body (run_calls later s1))"
proof -
  define mid where "mid = run_calls cs s1"
  from first_call [OF assms(1), of on_create1 body1 d1] assms(2,4)
  have b1: "identifiers (self s1) identifier = Some d1"
    and c1: "count_list (new_events s s1) (OnCreate identifier) =
           (case on_create1 of None \<Rightarrow> 0 | Some f \<Rightarrow> 1)"
    by simp_all
  have m: "bound_to identifier d1 (trace s1) mid"
    unfolding mid_def by (intro bound_to_run_calls bound_to_start b1)
  then have bm: "identifiers (self mid) identifier = Some d1"
    by (simp add: bound_to_def)
  have s2: "s2 = snd (test_directory identifier on_create2 body2 mid)"
    by (simp add: assms(3) mid_def)
  have "bound_to identifier d1 (trace s1) s2"
    unfolding s2 by (intro preservesD [OF bound_to_test_directory] m)
  from bound_to_new_events [OF this]
  have b2: "identifiers (self s2) identifier = Some d1"
    and n2: "OnCreate identifier \<notin> set (new_events s1 s2)"
    by simp_all
  have "bound_to identifier d1 (trace mid) s2"
    unfolding s2 by (intro preservesD [OF bound_to_test_directory] bound_to_start bm)
  from bound_to_new_events [OF this] assms(5) have d: "d2 = d1"
    by (simp add: mid_def)
  have l: "identifiers (self (run_calls later s2)) identifier = Some d1" for later
    using bound_to_run_calls [OF bound_to_start [OF b2], of later]
    by (simp add: bound_to_def)
  have l1: "identifiers (self (run_calls later s1)) identifier = Some d1" for later
    using bound_to_run_calls [OF bound_to_start [OF b1], of later]
    by (simp add: bound_to_def)
  have ig: "test_directory identifier on_create body (run_calls later s1) =
            test_directory identifier None body (run_calls later s1)" for later on_create body
    by (rule bound_ignores_callback [OF l1])
  from yielded_first [of "identifier" d1 s on_create1 body1] assms(2,4)
  have wc: "workspace_created s"
    and fr: "fst (find_or_create identifier on_create1 s) = Inr ()"
    and fb: "identifiers (self (snd (find_or_create identifier on_create1 s))) identifier = Some d1"
    by simp_all
  define sa where "sa = snd (find_or_create identifier on_create1 s)"
  from fr have fa: "find_or_create identifier on_create1 s = (Inr (), sa)"
    by (cases "find_or_create identifier on_create1 s") (simp add: sa_def)
  from find_or_create_creates [OF assms(1) fa]
  obtain w d o1 where w: "workspace (self s) = Some w"
    and mk: "mkdtemp_try w (tmp_names (os s)) (os s) = (Inr d, o1)"
    and ok: "case on_create1 of None \<Rightarrow> True | Some f \<Rightarrow> fst (f (o1\<lparr>cwd := d\<rparr>)) = None"
    and sa: "sa = s\<lparr>self := (self s)\<lparr>identifiers := (identifiers (self s))(identifier \<mapsto> d)\<rparr>,
                    os := (case on_create1 of
                             None \<Rightarrow> o1\<lparr>cwd := d\<rparr>
                           | Some f \<Rightarrow> snd (f (o1\<lparr>cwd := d\<rparr>))),
                    trace := trace s @ (case on_create1 of
                                          None \<Rightarrow> []
                                        | Some f \<Rightarrow> [OnCreate identifier])\<rparr>"
    by blast
  from fb have "d = d1"
    unfolding sa_def [symmetric] by (simp add: sa)
  note td1 = test_directory_scope [OF wc fa, of body1, unfolded sa \<open>d = d1\<close>]
  have first: "\<exists>w o1. workspace (self s) = Some w \<and>
                 mkdtemp_try w (tmp_names (os s)) (os s) = (Inr d1, o1) \<and>
                 (case on_create1 of None \<Rightarrow> True | Some f \<Rightarrow> fst (f (o1\<lparr>cwd := d1\<rparr>)) = None) \<and>
                 test_directory identifier on_create1 body1 s =
                   scope_of identifier body1
                     (s\<lparr>self := (self s)\<lparr>identifiers := (identifiers (self s))(identifier \<mapsto> d1)\<rparr>,
                        os := (case on_create1 of
                                 None \<Rightarrow> o1\<lparr>cwd := d1\<rparr>
                               | Some f \<Rightarrow> snd (f (o1\<lparr>cwd := d1\<rparr>))),
                        trace := trace s @ (case on_create1 of
                                              None \<Rightarrow> []
                                            | Some f \<Rightarrow> [OnCreate identifier])\<rparr>)"
    using w mk ok td1 unfolding \<open>d = d1\<close> by blast
  from yielded_first [of "identifier" d2 mid on_create2 body2] assms(5)
  have wcm: "workspace_created mid"
    and frm: "fst (find_or_create identifier on_create2 mid) = Inr ()"
    by (simp_all add: s2 mid_def)
  note fm = find_or_create_finds [OF bm frm]
  note td2 = test_directory_scope [OF wcm fm, of body2]
  from d b1 bm b2 l c1 n2 first td2 ig show ?thesis
    unfolding mid_def by blast
qed

lemma example_counted_first:
  "snd (test_directory ''a'' (Some on_create_counts) body_writes_log
          (example_entered example_log_area)) =
     (example_entered example_log_area)
       \<lparr>self := (self (example_entered example_log_area))
          \<lparr>identifiers := [''a'' \<mapsto> [''home'', ''workspace'', ''tmp1'']]\<rparr>,
        os := (os (example_entered example_log_area))
          \<lparr>dirs := [[], [''home''], [''other''], [''home'', ''workspace''], [''home'', ''logs''],
                    [''home'', ''artifacts''], [''home'', ''workspace'', ''tmp1''],
                    [''home'', ''workspace'', ''tmp1'', ''logs''],
                    [''home'', ''workspace'', ''tmp1'', ''artifacts'']],
           files := [([''home'', ''created''], ''x''),
                     ([''home'', ''workspace'', ''tmp1'', ''logs'', ''test_output.log''], ''PASSED''),
                     ([''home'', ''logs'', ''full_execution.log''], ''PASSED'')],
           tmp_names := [''tmp2'']\<rparr>,
        trace := [OnCreate ''a'', Yielded ''a'' [''home'', ''workspace'', ''tmp1''],
                  UploadLogs [(''test_output.log'',
                     [''home'', ''workspace'', ''tmp1'', ''logs'', ''test_output.log''])],
                  UploadArtifacts []]\<rparr>"
  by (simp add: example_entered_eq run_defs body_writes_log_def on_create_counts_def
      example_log_area_def name_of_def touch_def open_append_def read_text_def write_end_def
      fun_upd_twist)

lemma example_counted_second:
  "trace (snd (test_directory ''a'' (Some on_create_counts) body_writes_log
          (snd (test_directory ''a'' (Some on_create_counts) body_writes_log
                  (example_entered example_log_area))))) =
     [OnCreate ''a'', Yielded ''a'' [''home'', ''workspace'', ''tmp1''],
      UploadLogs [(''test_output.log'',
         [''home'', ''workspace'', ''tmp1'', ''logs'', ''test_output.log''])],
      UploadArtifacts [],
      Yielded ''a'' [''home'', ''workspace'', ''tmp1''],
      UploadLogs [(''test_output.log'',
         [''home'', ''workspace'', ''tmp1'', ''logs'', ''test_output.log''])],
      UploadArtifacts []] \<and>
   files (os (snd (test_directory ''a'' (Some on_create_counts) body_writes_log
          (snd (test_directory ''a'' (Some on_create_counts) body_writes_log
                  (example_entered example_log_area)))))) =
     [([''home'', ''created''], ''x''),
      ([''home'', ''workspace'', ''tmp1'', ''logs'', ''test_output.log''], ''PASSED''),
      ([''home'', ''logs'', ''full_execution.log''], ''PASSEDPASSED'')]"
  unfolding example_counted_first
  by (simp add: example_entered_eq run_defs body_writes_log_def on_create_counts_def
      example_log_area_def name_of_def touch_def open_append_def read_text_def write_end_def)

theorem test_directory_twice_witness:
  "identifiers (self (example_entered example_log_area)) ''a'' = None \<and>
   Yielded ''a'' [''home'', ''workspace'', ''tmp1''] \<in>
     set (new_events (example_entered example_log_area)
            (snd (test_directory ''a'' (Some on_create_counts) body_writes_log
                    (example_entered example_log_area)))) \<and>
   Yielded ''a'' [''home'', ''workspace'', ''tmp1''] \<in>
     set (new_events
            (snd (test_directory ''a'' (Some on_create_counts) body_writes_log
                    (example_entered example_log_area)))
            (snd (test_directory ''a'' (Some on_create_counts) body_writes_log
                    (snd (test_directory ''a'' (Some on_create_counts) body_writes_log
                            (example_entered example_log_area)))))) \<and>
   identifiers
     (self (snd (test_directory ''a'' (Some on_create_counts) body_writes_log
                   (snd (test_directory ''a'' (Some on_create_counts) body_writes_log
                           (example_entered example_log_area)))))) ''a'' =
     Some [''home'', ''workspace'', ''tmp1''] \<and>
   count_list
     (new_events (example_entered example_log_area)
        (snd (test_directory ''a'' (Some on_create_counts) body_writes_log
                (example_entered example_log_area))))
     (OnCreate ''a'') = 1 \<and>
   OnCreate ''a'' \<notin>
     set (new_events
            (snd (test_directory ''a'' (Some on_create_counts) body_writes_log
                    (example_entered example_log_area)))
            (snd (test_directory ''a'' (Some on_create_counts) body_writes_log
                    (snd (test_directory ''a'' (Some on_create_counts) body_writes_log
                            (example_entered example_log_area)))))) \<and>
   map_of (files (os (example_entered example_log_area))) [''home'', ''created''] = None \<and>
   map_of
     (files (os (snd (test_directory ''a'' (Some on_create_counts) body_writes_log
                        (snd (test_directory ''a'' (Some on_create_counts) body_writes_log
                                (example_entered example_log_area)))))))
     [''home'', ''created''] = Some ''x''"
proof -
  define s where "s = example_entered example_log_area"
  define s1 where "s1 = snd (test_directory ''a'' (Some on_create_counts) body_writes_log s)"
  define s2 where "s2 = snd (test_directory ''a'' (Some on_create_counts) body_writes_log s1)"
  have t0: "trace s = []" by (simp add: s_def example_entered_eq)
  have f0: "map_of (files (os s)) [''home'', ''created''] = None"
    by (simp add: s_def example_entered_eq)
  have t1: "trace s1 = [OnCreate ''a'', Yielded ''a'' [''home'', ''workspace'', ''tmp1''],
      UploadLogs [(''test_output.log'',
         [''home'', ''workspace'', ''tmp1'', ''logs'', ''test_output.log''])],
      UploadArtifacts []]"
    unfolding s1_def s_def example_counted_first by simp
  have t2: "trace s2 = trace s1 @ [Yielded ''a'' [''home'', ''workspace'', ''tmp1''],
      UploadLogs [(''test_output.log'',
         [''home'', ''workspace'', ''tmp1'', ''logs'', ''test_output.log''])],
      UploadArtifacts []]"
    unfolding t1 unfolding s2_def s1_def s_def by (simp add: example_counted_second)
  have f2: "map_of (files (os s2)) [''home'', ''created''] = Some ''x''"
    unfolding s2_def s1_def s_def by (simp add: example_counted_second)
  have h1: "identifiers (self s) ''a'' = None" by (simp add: s_def example_entered_eq)
  have h3: "s2 = snd (test_directory ''a'' (Some on_create_counts) body_writes_log (run_calls [] s1))"
    by (simp add: s2_def)
  have h4: "Yielded ''a'' [''home'', ''workspace'', ''tmp1''] \<in> set (new_events s s1)"
    by (simp add: new_events_def t0 t1)
  have h5: "Yielded ''a'' [''home'', ''workspace'', ''tmp1''] \<in> set (new_events (run_calls [] s1) s2)"
    by (simp add: new_events_def t2)
  note th = test_directory_twice [OF h1 s1_def h3 h4 h5]
  from th have "identifiers (self s2) ''a'' = Some [''home'', ''workspace'', ''tmp1'']"
    and "count_list (new_events s s1) (OnCreate ''a'') = 1"
    and "OnCreate ''a'' \<notin> set (new_events s1 s2)"
    by simp_all
  with h1 h4 h5 f0 f2 show ?thesis
    unfolding s2_def s1_def s_def by simp
qed

section \<open>A callback that raises\<close>

lemma find_or_create_callback_raises:
  assumes w: "workspace (self s) = Some w" and t: "prefix (top_dir (self s)) w"
    and u: "identifiers (self s) identifier = None"
    and mk: "mkdtemp_try w (tmp_names (os s)) (os s) = (Inr d, o1)"
    and f: "f (o1\<lparr>cwd := d\<rparr>) = (Some e, o2)"
  shows "find_or_create identifier (Some f) s =
           (Inl e, s\<lparr>self := (self s)\<lparr>identifiers := (identifiers (self s))(identifier \<mapsto> d)\<rparr>,
                     os := o2, trace := trace s @ [OnCreate identifier]\<rparr>)"
proof -
  from mkdtemp_try_Inr [OF mk] t have "prefix (top_dir (self s)) d" and "is_dir d o1"
    by auto
  with w u mk f show ?thesis
    by (simp add: find_or_create_def bindE_def thenE_def the_workspace_def mkdtemp_def
        logger_info_def relative_to_def bound_dir_def chdir_def call_on_create_def run_proc_def)
qed

text \<open>
  Claim C9. On an entered workspace, let \<^verbatim>\<open>identifier\<close> be unbound, let
  \<^verbatim>\<open>mkdtemp\<close> create the directory \<^verbatim>\<open>d\<close>, and let the callback raise \<^verbatim>\<open>e\<close>. Then
  \<^verbatim>\<open>test_directory\<close> raises (it raises \<^verbatim>\<open>e\<close> when the callback left the workspace
  directory in place), the callback has run once and the body not at all, and
  the identifier is bound to \<^verbatim>\<open>d\<close>. Whatever calls follow, the identifier stays
  bound to \<^verbatim>\<open>d\<close>, the callback never runs for it again, and every scope opened
  for it is given \<^verbatim>\<open>d\<close>.
\<close>

theorem on_create_failure_keeps_binding:
  assumes "workspace (self s) = Some w" and "is_dir w (os s)" and "prefix (top_dir (self s)) w"
    and "identifiers (self s) identifier = None"
    and "mkdtemp_try w (tmp_names (os s)) (os s) = (Inr d, o1)"
    and "f (o1\<lparr>cwd := d\<rparr>) = (Some e, o2)"
    and "s1 = snd (test_directory identifier (Some f) body s)"
  shows "fst (test_directory identifier (Some f) body s) \<noteq> Inr () \<and>
         (is_dir w o2 \<longrightarrow> fst (test_directory identifier (Some f) body s) = Inl e) \<and>
         identifiers (self s1) identifier = Some d \<and>
         new_events s s1 = [OnCreate identifier] \<and>
         (\<forall>later. identifiers (self (run_calls later s1)) identifier = Some d \<and>
                  OnCreate identifier \<notin> set (new_events s1 (run_calls later s1)) \<and>
                  (\<forall>d'. Yielded identifier d' \<in> set (new_events s1 (run_calls later s1)) \<longrightarrow>
                        d' = d))"
proof -
  define s0 where "s0 = s\<lparr>self := (self s)\<lparr>identifiers := (identifiers (self s))(identifier \<mapsto> d)\<rparr>,
                     os := o2, trace := trace s @ [OnCreate identifier]\<rparr>"
  define rest where "rest = bindE (bound_dir identifier)
        (\<lambda>base. collect_logs base (bindE (bound_dir identifier) (yield_to identifier body)))"
  have foc: "find_or_create identifier (Some f) s = (Inl e, s0)"
    unfolding s0_def using assms(1,3,4,5,6) by (rule find_or_create_callback_raises [where f = f])
  from assms(1,2) have td: "test_directory identifier (Some f) body s =
      finallyE (thenE (find_or_create identifier (Some f)) rest) return_to_workspace s"
    by (simp add: test_directory_def workspace_created_def rest_def)
  from assms(1,3) have ret: "return_to_workspace s0 =
      (if is_dir w o2 then (Inr (), s0\<lparr>os := o2\<lparr>cwd := w\<rparr>\<rparr>)
       else (Inl (if is_file w o2 then NotADirectoryError else FileNotFoundError (str_path w)), s0))"
    by (simp add: return_to_workspace_def s0_def the_workspace_def thenE_def bindE_def
        logger_info_def relative_to_def chdir_def)
  from foc have tb: "thenE (find_or_create identifier (Some f)) rest s = (Inl e, s0)"
    by simp
  have r: "fst (test_directory identifier (Some f) body s) \<noteq> Inr ()"
    and re: "is_dir w o2 \<longrightarrow> fst (test_directory identifier (Some f) body s) = Inl e"
    and st: "self s1 = self s0" "trace s1 = trace s0"
    unfolding assms(7) td by (simp_all add: finallyE_def tb ret)
  from st have b: "identifiers (self s1) identifier = Some d"
    and n: "new_events s s1 = [OnCreate identifier]"
    by (simp_all add: s0_def new_events_def)
  have l: "identifiers (self (run_calls later s1)) identifier = Some d \<and>
                  OnCreate identifier \<notin> set (new_events s1 (run_calls later s1)) \<and>
                  (\<forall>d'. Yielded identifier d' \<in> set (new_events s1 (run_calls later s1)) \<longrightarrow>
                        d' = d)" for later
    using bound_to_new_events [OF bound_to_run_calls [OF bound_to_start [OF b], of later]]
    by simp
  from r re b n l show ?thesis by simp
qed


theorem on_create_failure_keeps_binding_witness:
  "fst (test_directory ''a'' (Some on_create_raises) body_writes_log
          (example_entered example_log_area)) = Inl (Raised ''checkout failed'') \<and>
   identifiers
     (self (snd (test_directory ''a'' (Some on_create_raises) body_writes_log
                   (example_entered example_log_area)))) ''a'' =
     Some [''home'', ''workspace'', ''tmp1''] \<and>
   new_events (example_entered example_log_area)
     (snd (test_directory ''a'' (Some on_create_raises) body_writes_log
             (example_entered example_log_area))) = [OnCreate ''a''] \<and>
   identifiers
     (self (run_calls [CallTestDirectory ''a'' (Some on_create_ok) body_writes_log]
              (snd (test_directory ''a'' (Some on_create_raises) body_writes_log
                      (example_entered example_log_area))))) ''a'' =
     Some [''home'', ''workspace'', ''tmp1''] \<and>
   OnCreate ''a'' \<notin>
     set (new_events
            (snd (test_directory ''a'' (Some on_create_raises) body_writes_log
                    (example_entered example_log_area)))
            (run_calls [CallTestDirectory ''a'' (Some on_create_ok) body_writes_log]
               (snd (test_directory ''a'' (Some on_create_raises) body_writes_log
                       (example_entered example_log_area)))))"
proof -
  define s where "s = example_entered example_log_area"
  define s1 where "s1 = snd (test_directory ''a'' (Some on_create_raises) body_writes_log s)"
  define w where "w = [''home'', ''workspace'']"
  define d where "d = [''home'', ''workspace'', ''tmp1'']"
  define o1 where "o1 = (os s)\<lparr>dirs := dirs (os s) @ [d], tmp_names := [''tmp2'']\<rparr>"
  have h1: "workspace (self s) = Some w" and h2: "is_dir w (os s)"
    and h3: "prefix (top_dir (self s)) w" and h4: "identifiers (self s) ''a'' = None"
    by (simp_all add: s_def w_def example_entered_eq is_dir_def)
  have h5: "mkdtemp_try w (tmp_names (os s)) (os s) = (Inr d, o1)"
    by (simp add: s_def w_def d_def o1_def example_entered_eq is_dir_def is_file_def
        path_exists_def)
  have h6: "on_create_raises (o1\<lparr>cwd := d\<rparr>) = (Some (Raised ''checkout failed''), o1\<lparr>cwd := d\<rparr>)"
    by (simp add: on_create_raises_def)
  have k: "is_dir w (o1\<lparr>cwd := d\<rparr>)"
    by (simp add: s_def w_def d_def o1_def example_entered_eq is_dir_def)
  from on_create_failure_keeps_binding [OF h1 h2 h3 h4 h5 h6 s1_def] k
  have "fst (test_directory ''a'' (Some on_create_raises) body_writes_log s) =
          Inl (Raised ''checkout failed'')"
    and "identifiers (self s1) ''a'' = Some d"
    and "new_events s s1 = [OnCreate ''a'']"
    and "identifiers (self (run_calls [CallTestDirectory ''a'' (Some on_create_ok) body_writes_log]
          s1)) ''a'' = Some d"
    and "OnCreate ''a'' \<notin> set (new_events s1
          (run_calls [CallTestDirectory ''a'' (Some on_create_ok) body_writes_log] s1))"
    by blast+
  then show ?thesis
    unfolding s1_def s_def d_def by simp
qed

section \<open>The cumulative log of a visit\<close>











section \<open>The working directory after teardown\<close>

lemma top_dir_os_only: "os_only m \<Longrightarrow> preserves (\<lambda>s. top_dir (self s) = t) m"
  by (rule os_only_preserves) simp_all

lemma top_dir_find_or_create:
  "preserves (\<lambda>s. top_dir (self s) = t) (find_or_create i oc)"
proof -
  have upd: "preserves (\<lambda>s. top_dir (self s) = t)
      (\<lambda>s. (Inr (), s\<lparr>self := (self s)\<lparr>identifiers := (identifiers (self s))(i \<mapsto> d)\<rparr>\<rparr>))" for d
    by (simp add: preserves_def)
  have cb: "preserves (\<lambda>s. top_dir (self s) = t) (call_on_create i oc)"
    by (simp add: preserves_def call_on_create_def run_proc_def split: option.split prod.split)
  have a: "preserves (\<lambda>s. top_dir (self s) = t)
        (bindE (bindE the_workspace mkdtemp)
           (\<lambda>directory.
        thenE (\<lambda>s. logger_info (relative_to directory (top_dir (self s))) s)
       (thenE (\<lambda>s. (Inr (), s\<lparr>self := (self s)\<lparr>identifiers :=
                         (identifiers (self s))(i \<mapsto> directory)\<rparr>\<rparr>))
       (thenE (bindE (bound_dir i)
                (\<lambda>d s. logger_info (relative_to d (top_dir (self s))) s))
       (thenE (bindE (bound_dir i) chdir)
              (call_on_create i oc))))))"
    by (intro preserves_bindE preserves_thenE upd cb top_dir_os_only os_only_the_workspace
        os_only_mkdtemp os_only_logger os_only_bound_dir os_only_chdir)
  have b: "preserves (\<lambda>s. top_dir (self s) = t)
        (thenE (bindE (bound_dir i)
                 (\<lambda>d s. logger_info (relative_to d (top_dir (self s))) s))
        (thenE (bindE (bound_dir i)
                 (\<lambda>d s. logger_info (relative_to d (top_dir (self s))) s))
               (bindE (bound_dir i) chdir)))"
    by (intro preserves_bindE preserves_thenE top_dir_os_only
        os_only_logger os_only_bound_dir os_only_chdir)
  from a b show ?thesis
    by (simp add: preserves_def find_or_create_def)
qed

lemma top_dir_yield:
  "preserves (\<lambda>s. top_dir (self s) = t) (bindE (bound_dir i) (yield_to i body))"
proof -
  have y: "preserves (\<lambda>s. top_dir (self s) = t) (yield_to i body d)" for d
    by (simp add: preserves_def yield_to_def run_proc_def split: option.split prod.split)
  show ?thesis
    by (intro preserves_bindE y top_dir_os_only [OF os_only_bound_dir])
qed

lemma top_dir_do_call: "top_dir (self (do_call c s)) = top_dir (self s)"
proof (cases c)
  case (CallEnter p)
  have "preserves (\<lambda>x. top_dir (self x) = top_dir (self s)) (enter p)"
    by (intro preserves_enter top_dir_os_only) simp_all
  with CallEnter show ?thesis by (simp add: preserves_def)
next
  case (CallExit exc)
  have cp: "preserves (\<lambda>x. top_dir (self x) = top_dir (self s)) compress"
    by (simp add: preserves_def compress_frame)
  have "preserves (\<lambda>x. top_dir (self x) = top_dir (self s)) (exit exc)"
    by (intro preserves_exit cp top_dir_os_only) simp_all
  with CallExit show ?thesis by (simp add: preserves_def)
next
  case CallCompress
  then show ?thesis by (simp add: compress_frame)
next
  case (CallTestDirectory j oc b)
  have "preserves (\<lambda>x. top_dir (self x) = top_dir (self s)) (test_directory j oc b)"
    by (intro preserves_test_directory top_dir_os_only top_dir_find_or_create top_dir_yield)
      simp_all
  with CallTestDirectory show ?thesis by (simp add: preserves_def)
next
  case (CallerCode f)
  then show ?thesis by (simp add: run_proc_def split: prod.split option.split)
qed

lemma top_dir_run_calls: "top_dir (self (run_calls cs s)) = top_dir (self s)"
  by (induction cs arbitrary: s) (simp_all add: top_dir_do_call)

text \<open>
  Claim C4, as the code has it. \<^verbatim>\<open>top_dir\<close> is the current directory at
  construction and no call changes it. Whatever calls and code of the caller come
  between construction and \<^verbatim>\<open>__exit__\<close>, whatever exception \<^verbatim>\<open>__exit__\<close> is handed
  and whether it returns or raises: if the directory of construction still
  exists, it is the current directory after \<^verbatim>\<open>__exit__\<close>.
\<close>

theorem exit_restores_top_dir:
  assumes "is_dir (cwd o1) (os (run_calls cs (init la o1)))"
  shows "cwd (os (snd (exit exc (run_calls cs (init la o1))))) = cwd o1"
proof -
  have "top_dir (self (run_calls cs (init la o1))) = cwd o1"
    by (simp add: top_dir_run_calls) (simp add: init_def)
  with exit_summary [of exc "run_calls cs (init la o1)"] assms show ?thesis
    by auto
qed

theorem exit_restores_top_dir_witness:
  "cwd (os (snd (exit (Some (Raised ''test failed''))
                   (run_calls [CallEnter None, CallTestDirectory ''a'' None body_raises]
                      (init example_log_area example_os))))) = [''home'']"
proof -
  have e: "run_calls [CallEnter None, CallTestDirectory ''a'' None body_raises]
             (init example_log_area example_os) =
           snd (test_directory ''a'' None body_raises (example_entered example_log_area))"
    by (simp add: example_entered_def)
  have d: "is_dir (cwd example_os)
      (os (run_calls [CallEnter None, CallTestDirectory ''a'' None body_raises]
             (init example_log_area example_os)))"
    unfolding e
    by (simp add: example_entered_eq run_defs body_raises_def) (simp add: example_os_def)
  from exit_restores_top_dir [OF d] show ?thesis
    by (simp add: example_os_def)
qed

text \<open>
  Claim C4 as it is stated fails when the caller changes directory between
  construction and \<^verbatim>\<open>__enter__\<close>: constructed in \<^verbatim>\<open>/home\<close>, entered from
  \<^verbatim>\<open>/other\<close>, the workspace leaves the process in \<^verbatim>\<open>/home\<close>.
\<close>

theorem exit_round_trip_counterexample:
  "cwd (os (run_calls [CallerCode go_other] (init example_log_area example_os))) = [''other''] \<and>
   fst (enter None (run_calls [CallerCode go_other] (init example_log_area example_os))) = Inr () \<and>
   fst (exit None (run_calls [CallerCode go_other, CallEnter None]
                     (init example_log_area example_os))) = Inr () \<and>
   cwd (os (snd (exit None (run_calls [CallerCode go_other, CallEnter None]
                              (init example_log_area example_os))))) = [''home'']"
  by (simp add: init_def example_os_def go_other_def run_proc_def enter_def Let_def thenE_def
      bindE_def logger_info_def relative_to_def mkdir_exist_ok_def is_dir_def is_file_def chdir_def
      exit_cases compress_cases workspace_created_def make_archive_gztar_def with_suffix_def
      path_exists_def archive_members_def call_collect_def call_upload_logs_eq
      call_upload_artifacts_eq example_log_area_def name_of_def str_path_def)

section \<open>The uploads of teardown\<close>

text \<open>
  Claim C1, as the code has it. \<^verbatim>\<open>__exit__\<close> changes to \<^verbatim>\<open>top_dir\<close>, compresses the
  workspace, and then attempts the uploads in the order global logs, global
  artifacts, archive; each step is taken only when every step before it returned.
  When \<^verbatim>\<open>chdir\<close> or \<^verbatim>\<open>compress\<close> raises, no upload is attempted and \<^verbatim>\<open>__exit__\<close>
  ends as that step did. Otherwise the logs are uploaded with the descriptors
  \<^verbatim>\<open>collect(global_logs)\<close> returns, the artifacts with those \<^verbatim>\<open>collect(global_artifacts)\<close>
  returns, and the archive with the one descriptor of \<^verbatim>\<open>compressed_workspace\<close>, its
  name and its path; a \<^verbatim>\<open>collect\<close> or an upload that raises ends the sequence, and its
  exception is what \<^verbatim>\<open>__exit__\<close> raises. So the events \<^verbatim>\<open>__exit__\<close> adds to the trace
  are an initial part of the sequence of three uploads; when \<^verbatim>\<open>__exit__\<close> returns
  all three were attempted; and an upload that raises is the last one attempted.
\<close>

theorem exit_uploads_in_sequence:
  assumes s1: "s1 = s\<lparr>os := (os s)\<lparr>cwd := top_dir (self s)\<rparr>\<rparr>"
    and s2: "s2 = snd (compress s1)"
    and la: "la = log_area (self s)"
    and evs: "evs = new_events s (snd (exit exc s))"
  shows "trace (snd (exit exc s)) = trace s @ evs \<and>
         (\<not> is_dir (top_dir (self s)) (os s) \<longrightarrow>
            evs = [] \<and> exit exc s = chdir (top_dir (self s)) s) \<and>
         (is_dir (top_dir (self s)) (os s) \<and> fst (compress s1) \<noteq> Inr () \<longrightarrow>
            evs = [] \<and> exit exc s = compress s1) \<and>
         (is_dir (top_dir (self s)) (os s) \<and> fst (compress s1) = Inr () \<longrightarrow>
            (case collect la (os s2) (global_logs (self s)) of
               Inl e \<Rightarrow> evs = [] \<and> fst (exit exc s) = Inl e
             | Inr l \<Rightarrow>
                (case upload_logs la (trace s) l of
                   Some e \<Rightarrow> evs = [UploadLogs l] \<and> fst (exit exc s) = Inl e
                 | None \<Rightarrow>
                    (case collect la (os s2) (global_artifacts (self s)) of
                       Inl e \<Rightarrow> evs = [UploadLogs l] \<and> fst (exit exc s) = Inl e
                     | Inr a \<Rightarrow>
                        (case upload_artifacts la (trace s @ [UploadLogs l]) a of
                           Some e \<Rightarrow> evs = [UploadLogs l, UploadArtifacts a] \<and>
                                     fst (exit exc s) = Inl e
                         | None \<Rightarrow>
                            (\<exists>c. compressed_workspace (self s2) = Some c \<and>
                                 evs = [UploadLogs l, UploadArtifacts a,
                                        UploadArtifacts [(name_of c, c)]] \<and>
                                 fst (exit exc s) =
                                   (case upload_artifacts la
                                           (trace s @ [UploadLogs l, UploadArtifacts a])
                                           [(name_of c, c)] of
                                      None \<Rightarrow> Inr () | Some e \<Rightarrow> Inl e))))))) \<and>
         (\<exists>l a c. prefix evs [UploadLogs l, UploadArtifacts a, UploadArtifacts [(name_of c, c)]]) \<and>
         (fst (exit exc s) = Inr () \<longrightarrow> length evs = 3) \<and>
         (\<forall>i e. i < length evs \<and> upload_outcome la (trace s @ take i evs) (evs ! i) = Some e \<longrightarrow>
                Suc i = length evs \<and> fst (exit exc s) = Inl e)"
proof -
  have old: "trace (snd (exit exc s)) = trace s @ evs \<and>
      (\<exists>l a c. prefix evs [UploadLogs l, UploadArtifacts a, UploadArtifacts [(name_of c, c)]]) \<and>
      (fst (exit exc s) = Inr () \<longrightarrow> length evs = 3) \<and>
      (\<forall>i e. i < length evs \<and> upload_outcome la (trace s @ take i evs) (evs ! i) = Some e \<longrightarrow>
             Suc i = length evs \<and> fst (exit exc s) = Inl e)"
  proof -
    from exit_summary [of exc s] obtain es where
      t: "trace (snd (exit exc s)) = trace s @ es"
      and p: "\<exists>l a c. prefix es [UploadLogs l, UploadArtifacts a, UploadArtifacts [(name_of c, c)]]"
      and k: "fst (exit exc s) = Inr () \<longrightarrow> length es = 3"
      and q: "\<forall>i e. i < length es \<and>
                  upload_outcome (log_area (self s)) (trace s @ take i es) (es ! i) = Some e \<longrightarrow>
                  Suc i = length es \<and> fst (exit exc s) = Inl e"
      by blast
    from t have n: "evs = es"
      by (simp add: evs new_events_def)
    from t p k q show ?thesis
      unfolding n la by blast
  qed
  have a: "\<not> is_dir (top_dir (self s)) (os s) \<longrightarrow>
      evs = [] \<and> exit exc s = chdir (top_dir (self s)) s"
    by (simp add: evs exit_cases chdir_def new_events_def)
  have b: "is_dir (top_dir (self s)) (os s) \<and> fst (compress s1) \<noteq> Inr () \<longrightarrow>
      evs = [] \<and> exit exc s = compress s1"
  proof (intro impI)
    assume h: "is_dir (top_dir (self s)) (os s) \<and> fst (compress s1) \<noteq> Inr ()"
    obtain r x where c: "compress s1 = (r, x)" by (cases "compress s1")
    with h obtain e where r: "r = Inl e" by (cases r) auto
    from compress_frame [of s1] c have "trace x = trace s" by (simp add: s1)
    moreover from h c r have "exit exc s = (Inl e, x)" by (simp add: exit_cases s1 [symmetric])
    ultimately show "evs = [] \<and> exit exc s = compress s1"
      by (simp add: evs new_events_def c r)
  qed
  have c: "is_dir (top_dir (self s)) (os s) \<and> fst (compress s1) = Inr () \<longrightarrow>
            (case collect la (os s2) (global_logs (self s)) of
               Inl e \<Rightarrow> evs = [] \<and> fst (exit exc s) = Inl e
             | Inr l \<Rightarrow>
                (case upload_logs la (trace s) l of
                   Some e \<Rightarrow> evs = [UploadLogs l] \<and> fst (exit exc s) = Inl e
                 | None \<Rightarrow>
                    (case collect la (os s2) (global_artifacts (self s)) of
                       Inl e \<Rightarrow> evs = [UploadLogs l] \<and> fst (exit exc s) = Inl e
                     | Inr a \<Rightarrow>
                        (case upload_artifacts la (trace s @ [UploadLogs l]) a of
                           Some e \<Rightarrow> evs = [UploadLogs l, UploadArtifacts a] \<and>
                                     fst (exit exc s) = Inl e
                         | None \<Rightarrow>
                            (\<exists>c. compressed_workspace (self s2) = Some c \<and>
                                 evs = [UploadLogs l, UploadArtifacts a,
                                        UploadArtifacts [(name_of c, c)]] \<and>
                                 fst (exit exc s) =
                                   (case upload_artifacts la
                                           (trace s @ [UploadLogs l, UploadArtifacts a])
                                           [(name_of c, c)] of
                                      None \<Rightarrow> Inr () | Some e \<Rightarrow> Inl e))))))"
  proof (intro impI)
    assume h: "is_dir (top_dir (self s)) (os s) \<and> fst (compress s1) = Inr ()"
    then have c: "compress s1 = (Inr (), s2)"
      by (cases "compress s1") (simp add: s2)
    from compress_frame [of s1] compress_keeps_areas [of s1] c
    have f: "log_area (self s2) = la" "trace s2 = trace s"
      "global_logs (self s2) = global_logs (self s)"
      "global_artifacts (self s2) = global_artifacts (self s)"
      and "compressed_workspace (self s2) \<noteq> None"
      by (simp_all add: s1 la)
    then obtain cw where cw: "compressed_workspace (self s2) = Some cw" by auto
    define U where "U = thenE (bindE (\<lambda>s. call_collect (global_logs (self s)) s) call_upload_logs)
          (thenE (bindE (\<lambda>s. call_collect (global_artifacts (self s)) s) call_upload_artifacts)
             (\<lambda>s. case compressed_workspace (self s) of
                     None \<Rightarrow> (Inl AttributeError, s)
                   | Some c \<Rightarrow> call_upload_artifacts [(name_of c, c)] s))"
    from h c have e: "exit exc s = U s2"
      by (simp add: exit_cases s1 [symmetric] U_def)
    note u = uploads_outcome [OF f cw, folded U_def, folded e, folded new_events_def, folded evs]
    from u cw show "case collect la (os s2) (global_logs (self s)) of
               Inl e \<Rightarrow> evs = [] \<and> fst (exit exc s) = Inl e
             | Inr l \<Rightarrow>
                (case upload_logs la (trace s) l of
                   Some e \<Rightarrow> evs = [UploadLogs l] \<and> fst (exit exc s) = Inl e
                 | None \<Rightarrow>
                    (case collect la (os s2) (global_artifacts (self s)) of
                       Inl e \<Rightarrow> evs = [UploadLogs l] \<and> fst (exit exc s) = Inl e
                     | Inr a \<Rightarrow>
                        (case upload_artifacts la (trace s @ [UploadLogs l]) a of
                           Some e \<Rightarrow> evs = [UploadLogs l, UploadArtifacts a] \<and>
                                     fst (exit exc s) = Inl e
                         | None \<Rightarrow>
                            (\<exists>c. compressed_workspace (self s2) = Some c \<and>
                                 evs = [UploadLogs l, UploadArtifacts a,
                                        UploadArtifacts [(name_of c, c)]] \<and>
                                 fst (exit exc s) =
                                   (case upload_artifacts la
                                           (trace s @ [UploadLogs l, UploadArtifacts a])
                                           [(name_of c, c)] of
                                      None \<Rightarrow> Inr () | Some e \<Rightarrow> Inl e)))))"
      by (simp split: sum.splits option.splits)
  qed
  from old a b c show ?thesis by blast
qed

theorem exit_uploads_in_sequence_witness:
  "fst (exit None (example_entered example_log_area)) = Inr () \<and>
   new_events (example_entered example_log_area)
     (snd (exit None (example_entered example_log_area))) =
     [UploadLogs [], UploadArtifacts [],
      UploadArtifacts [(''workspace.tar.gz'', [''home'', ''workspace.tar.gz''])]] \<and>
   fst (exit None (example_entered failing_log_area)) = Inl (Raised ''upload_logs failed'') \<and>
   new_events (example_entered failing_log_area)
     (snd (exit None (example_entered failing_log_area))) = [UploadLogs []]"
proof -
  note th = exit_uploads_in_sequence [OF refl refl refl refl, THEN conjunct2, THEN conjunct2,
      THEN conjunct2, THEN conjunct1]
  from th [of "example_entered example_log_area" None]
  have 1: "fst (exit None (example_entered example_log_area)) = Inr () \<and>
     new_events (example_entered example_log_area)
       (snd (exit None (example_entered example_log_area))) =
       [UploadLogs [], UploadArtifacts [],
        UploadArtifacts [(''workspace.tar.gz'', [''home'', ''workspace.tar.gz''])]]"
    by (simp add: example_entered_eq is_dir_def is_file_def compress_cases workspace_created_def
        make_archive_gztar_def with_suffix_def path_exists_def archive_members_def
        example_log_area_def name_of_def str_path_def Let_def)
  from th [of "example_entered failing_log_area" None]
  have 2: "fst (exit None (example_entered failing_log_area)) = Inl (Raised ''upload_logs failed'') \<and>
     new_events (example_entered failing_log_area)
       (snd (exit None (example_entered failing_log_area))) = [UploadLogs []]"
    by (simp add: example_entered_eq is_dir_def is_file_def compress_cases workspace_created_def
        make_archive_gztar_def with_suffix_def path_exists_def archive_members_def
        example_log_area_def failing_log_area_def name_of_def str_path_def Let_def)
  from 1 2 show ?thesis by simp
qed

text \<open>
  Claim C1 as it is stated fails when an upload raises: with a log area whose
  upload of logs raises, \<^verbatim>\<open>__exit__\<close> raises that exception after one attempted
  upload; the global artifacts and the archive are never uploaded.
\<close>

theorem exit_uploads_counterexample:
  "fst (exit None (example_entered failing_log_area)) = Inl (Raised ''upload_logs failed'') \<and>
   trace (snd (exit None (example_entered failing_log_area))) = [UploadLogs []]"
  by (simp add: example_entered_eq is_dir_def is_file_def
      exit_cases compress_cases workspace_created_def make_archive_gztar_def with_suffix_def
      path_exists_def archive_members_def call_collect_def call_upload_logs_eq
      call_upload_artifacts_eq example_log_area_def failing_log_area_def name_of_def str_path_def
      Let_def thenE_def bindE_def)

end
